theory Spec2Isabelle
  imports Complex_Main "HOL-Library.Word" "HOL-Library.AList"
begin

section \<open>Data model of \<open>RTC::Transport\<close>\<close>

text \<open>
  The development embeds \<^verbatim>\<open>worker/src/RTC/Transport.cpp\<close>. Machine integers are
  words of the width the source declares. The classes the file uses but does not define
  (Producer, Consumer, the RTCP packets, the channel request, the JSON value) are
  represented by the data this file reads from them. A pointer to a Producer or a
  Consumer is the record of the object it points to; the field \<open>addr\<close> keeps two
  objects with equal contents apart. Calls that leave the file (listener callbacks,
  \<^verbatim>\<open>delete\<close>, log macros, the request's Accept and Reject, calls into producers and
  consumers, the send hook, the timer) are recorded, in program order, as a list of
  events returned beside the new state. A log event keeps the format string of the
  macro (with \<^verbatim>\<open>PRIu32\<close> written out) and its numeric arguments. The calls into
  producers and consumers are taken not to change what this file reads from them (id,
  kind, started, encodings, header extension ids). The maps of the class are
  association lists with distinct keys; a loop over a map visits the list in order.
\<close>

type_synonym uint8 = "8 word"
type_synonym uint32 = "32 word"
type_synonym uint64 = "64 word"

datatype Kind = AUDIO | VIDEO

record RtpEncodingParameters =
  ssrc :: uint32
  hasRtx :: bool
  rtx_ssrc :: uint32
  hasFec :: bool
  fec_ssrc :: uint32

record RtpHeaderExtensionIds =
  absSendTime :: uint8
  mid :: uint8
  rid :: uint8

record Producer =
  producer_addr :: nat
  producer_id :: string
  producer_encodings :: "RtpEncodingParameters list"
  producer_rtpHeaderExtensionIds :: RtpHeaderExtensionIds

record Consumer =
  consumer_addr :: nat
  consumer_id :: string
  consumer_kind :: Kind
  consumer_started :: bool
  consumer_encodings :: "RtpEncodingParameters list"

text \<open>
  The JSON value of the channel request. An unsigned number holds a 64-bit value;
  \<^verbatim>\<open>get<uint32_t>()\<close> on it is a \<^verbatim>\<open>static_cast\<close>, which keeps the low 32 bits.
\<close>

datatype json =
    J_null
  | J_boolean bool
  | J_number_integer int
  | J_number_unsigned uint64
  | J_number_float
  | J_string string
  | J_structured

fun is_number_unsigned :: "json \<Rightarrow> bool" where
  "is_number_unsigned (J_number_unsigned v) = True"
| "is_number_unsigned j = False"

fun is_string :: "json \<Rightarrow> bool" where
  "is_string (J_string s) = True"
| "is_string j = False"

fun get_uint32 :: "json \<Rightarrow> uint32" where
  "get_uint32 (J_number_unsigned v) = ucast v"
| "get_uint32 j = 0"

fun get_string :: "json \<Rightarrow> string" where
  "get_string (J_string s) = s"
| "get_string j = []"

datatype MethodId =
    TRANSPORT_SET_MAX_INCOMING_BITRATE
  | PRODUCER_CLOSE
  | CONSUMER_CLOSE
  | OTHER_METHOD nat

record Request =
  methodId :: MethodId
  internal :: "(string \<times> json) list"
  data :: "(string \<times> json) list"

datatype MediaSoupError = MediaSoupError (what: string)

text \<open>
  RTCP packets. The source reads the packet type, then casts to the class of that type;
  the datatype pairs each type with the data of its class. Reports and chunks carry
  their SSRC and an opaque body.
\<close>

datatype ReceiverReport = ReceiverReport (rr_GetSsrc: uint32) (rr_body: nat)

datatype SenderReport = SenderReport (sr_GetSsrc: uint32) (sr_body: nat)

datatype SdesChunk = SdesChunk (chunk_GetSsrc: uint32) (chunk_body: nat)

datatype FeedbackPsMessageType = PLI | FIR | AFB | PS_OTHER nat

datatype Application = UNKNOWN | REMB

record FeedbackPsPacket =
  ps_GetMessageType :: FeedbackPsMessageType
  ps_GetMediaSsrc :: uint32
  afb_GetApplication :: Application
  remb_GetBitrate :: uint32

datatype FeedbackRtpMessageType = NACK | RTP_OTHER nat

record FeedbackRtpPacket =
  rtp_GetMessageType :: FeedbackRtpMessageType
  rtp_GetMediaSsrc :: uint32
  rtp_body :: nat

datatype RtcpPacket =
    RR "ReceiverReport list"
  | PSFB FeedbackPsPacket
  | RTPFB FeedbackRtpPacket
  | SR "SenderReport list"
  | SDES "SdesChunk list"
  | BYE
  | OTHER_TYPE uint8

text \<open>
  The compound packet under construction, as the values its observers return
  (\<^verbatim>\<open>HasSenderReport\<close>, \<^verbatim>\<open>GetReceiverReportCount\<close>, \<^verbatim>\<open>GetSize\<close>) and its content.
\<close>

record CompoundPacket =
  HasSenderReport :: bool
  GetReceiverReportCount :: nat
  GetSize :: nat
  content :: "nat list"

datatype Event =
    Accept
  | Reject string
  | OnTransportProducerClosed Producer
  | OnTransportConsumerClosed Consumer
  | OnTransportConsumerKeyFrameRequested Consumer
  | Delete_Producer Producer
  | Delete_Consumer Consumer
  | MS_DEBUG_TAG string "nat list"
  | MS_DEBUG_2TAGS string "nat list"
  | MS_WARN_TAG string "nat list"
  | MS_ERROR string
  | RequestKeyFrame Consumer
  | ReceiveRtcpReceiverReport Consumer ReceiverReport
  | ReceiveKeyFrameRequest Consumer FeedbackPsMessageType
  | ReceiveNack Consumer FeedbackRtpPacket
  | ReceiveRtcpSenderReport Producer SenderReport
  | Serialize CompoundPacket
  | SendRtcpCompoundPacket CompoundPacket
  | Timer_Start uint64
  | Timer_Close

record Transport =
  mapProducers :: "(string \<times> Producer) list"
  mapConsumers :: "(string \<times> Consumer) list"
  rtpListener :: "(uint32 \<times> Producer) list"
  rtpHeaderExtensionIds :: RtpHeaderExtensionIds
  maxIncomingBitrate :: uint32
  availableOutgoingBitrate :: uint32

text \<open>
  Modelled from the spec: the member initialisers of the class are in the header, which
  is not part of the source file. A new transport has empty maps and an empty listener
  table, no header extension ids, and both bitrates zero.
\<close>

definition Transport_new :: Transport where
  "Transport_new =
     \<lparr>mapProducers = [], mapConsumers = [], rtpListener = [],
      rtpHeaderExtensionIds = \<lparr>absSendTime = 0, mid = 0, rid = 0\<rparr>,
      maxIncomingBitrate = 0, availableOutgoingBitrate = 0\<rparr>"

text \<open>
  What the file takes from outside: the constants \<^verbatim>\<open>RTC::RTCP::BufferSize\<close> and
  \<^verbatim>\<open>RTC::RTCP::MaxVideoIntervalMs\<close>, the member \<^verbatim>\<open>producers\<close> that \<open>SendRtcp\<close>
  iterates (no function of the file updates it), and the methods of Consumer and
  Producer whose results the file uses.
\<close>

record Externals =
  BufferSize :: nat
  MaxVideoIntervalMs :: uint64
  producers :: "Producer list"
  Consumer_GetRtcp :: "Consumer \<Rightarrow> CompoundPacket \<Rightarrow> uint64 \<Rightarrow> CompoundPacket"
  Producer_GetRtcp :: "Producer \<Rightarrow> CompoundPacket \<Rightarrow> uint64 \<Rightarrow> CompoundPacket"
  Consumer_GetTransmissionRate :: "Consumer \<Rightarrow> uint64 \<Rightarrow> uint32"

section \<open>RtpListener\<close>

text \<open>
  Modelled from the spec: the class RtpListener (AddProducer, RemoveProducer,
  GetProducer) is not part of the source file. The spec describes it as a mapping from
  SSRC to Producer that holds the primary SSRC of every encoding of a registered
  producer, where adding fails if an SSRC collides, and from which closing a producer
  removes its entries. A collision is an SSRC already mapped to another producer; a
  failed AddProducer leaves the table as it was.
\<close>

definition primarySsrcs :: "Producer \<Rightarrow> uint32 list" where
  "primarySsrcs producer = map ssrc (producer_encodings producer)"

definition GetProducer :: "(uint32 \<times> Producer) list \<Rightarrow> uint32 \<Rightarrow> Producer option" where
  "GetProducer table s = map_of table s"

definition HasSsrc :: "(uint32 \<times> Producer) list \<Rightarrow> uint32 \<Rightarrow> Producer \<Rightarrow> bool" where
  "HasSsrc table s producer =
     (case map_of table s of None \<Rightarrow> False | Some q \<Rightarrow> q \<noteq> producer)"

definition AddProducer ::
  "(uint32 \<times> Producer) list \<Rightarrow> Producer \<Rightarrow> MediaSoupError + (uint32 \<times> Producer) list" where
  "AddProducer table producer =
     (if list_ex (\<lambda>s. HasSsrc table s producer) (primarySsrcs producer)
      then Inl (MediaSoupError ''ssrc already exists in RTP listener'')
      else Inr (fold (\<lambda>s tb. AList.update s producer tb) (primarySsrcs producer) table))"

definition RemoveProducer :: "(uint32 \<times> Producer) list \<Rightarrow> Producer \<Rightarrow> (uint32 \<times> Producer) list" where
  "RemoveProducer table producer = filter (\<lambda>e. snd e \<noteq> producer) table"

section \<open>Request handling\<close>

definition GetProducerFromRequest :: "Transport \<Rightarrow> Request \<Rightarrow> MediaSoupError + Producer" where
  "GetProducerFromRequest t request =
     (case map_of (internal request) ''producerId'' of
        None \<Rightarrow> Inl (MediaSoupError ''request has no internal.producerId'')
      | Some jsonProducerId \<Rightarrow>
          if \<not> is_string jsonProducerId
          then Inl (MediaSoupError ''request has no internal.producerId'')
          else (case map_of (mapProducers t) (get_string jsonProducerId) of
                  None \<Rightarrow> Inl (MediaSoupError ''Producer not found'')
                | Some producer \<Rightarrow> Inr producer))"

definition GetConsumerFromRequest :: "Transport \<Rightarrow> Request \<Rightarrow> MediaSoupError + Consumer" where
  "GetConsumerFromRequest t request =
     (case map_of (internal request) ''consumerId'' of
        None \<Rightarrow> Inl (MediaSoupError ''request has no internal.consumerId'')
      | Some jsonConsumerId \<Rightarrow>
          if \<not> is_string jsonConsumerId
          then Inl (MediaSoupError ''request has no internal.consumerId'')
          else (case map_of (mapConsumers t) (get_string jsonConsumerId) of
                  None \<Rightarrow> Inl (MediaSoupError ''Consumer not found'')
                | Some consumer \<Rightarrow> Inr consumer))"

definition MinBitrate :: uint32 where
  "MinBitrate = 10000"

text \<open>
  \<open>HandleRequest\<close>. In the \<^verbatim>\<open>CONSUMER_CLOSE\<close> case the source stores the result of
  \<open>GetConsumerFromRequest\<close> in a local variable named \<^verbatim>\<open>producer\<close> and then erases,
  reports and deletes \<^verbatim>\<open>consumer\<close>, a name the handler does not declare. The model
  follows the text of the source: the object that \<^verbatim>\<open>consumer\<close> denotes in the enclosing
  scope is the first argument, and the looked-up object is bound to \<open>producer\<close> and not
  used. The events of the branch name the object they dereference and delete, so that
  \<open>dangling_use\<close> below can tell whether it was alive. The log macro \<^verbatim>\<open>MS_DEBUG_DEV\<close> is compiled out (\<^verbatim>\<open>MS_LOG_DEV\<close> is not defined).
\<close>

definition HandleRequest :: "Consumer \<Rightarrow> Transport \<Rightarrow> Request \<Rightarrow> Transport \<times> Event list" where
  "HandleRequest consumer t request =
     (case methodId request of
        TRANSPORT_SET_MAX_INCOMING_BITRATE \<Rightarrow>
          (case map_of (data request) ''bitrate'' of
             None \<Rightarrow> (t, [Reject ''missing bitrate''])
           | Some jsonBitrate \<Rightarrow>
               if \<not> is_number_unsigned jsonBitrate
               then (t, [Reject ''missing bitrate''])
               else
                 let bitrate = get_uint32 jsonBitrate;
                     bitrate = (if bitrate < MinBitrate then MinBitrate else bitrate)
                 in (t\<lparr>maxIncomingBitrate := bitrate\<rparr>,
                     [MS_DEBUG_TAG ''Transport maximum incoming bitrate set to %ubps'' [unat bitrate],
                      Accept]))
      | PRODUCER_CLOSE \<Rightarrow>
          (case GetProducerFromRequest t request of
             Inl error \<Rightarrow> (t, [Reject (what error)])
           | Inr producer \<Rightarrow>
               (t\<lparr>mapProducers := AList.delete (producer_id producer) (mapProducers t),
                  rtpListener := RemoveProducer (rtpListener t) producer\<rparr>,
                [OnTransportProducerClosed producer, Delete_Producer producer, Accept]))
      | CONSUMER_CLOSE \<Rightarrow>
          (case GetConsumerFromRequest t request of
             Inl error \<Rightarrow> (t, [Reject (what error)])
           | Inr producer \<Rightarrow>
               (t\<lparr>mapConsumers := AList.delete (consumer_id consumer) (mapConsumers t)\<rparr>,
                [OnTransportConsumerClosed consumer, Delete_Consumer consumer, Accept]))
      | OTHER_METHOD m \<Rightarrow>
          (t, [MS_ERROR (''unknown method '%s'' @ [CHR 0x27]), Reject ''unknown method'']))"

section \<open>Close, HandleProducer, HandleConsumer\<close>

definition Close :: "Transport \<Rightarrow> Transport \<times> Event list" where
  "Close t =
     (t\<lparr>mapProducers := [], mapConsumers := []\<rparr>,
      concat (map (\<lambda>kv. [OnTransportProducerClosed (snd kv), Delete_Producer (snd kv)])
                  (mapProducers t))
      @ concat (map (\<lambda>kv. [OnTransportConsumerClosed (snd kv), Delete_Consumer (snd kv)])
                    (mapConsumers t))
      @ [Timer_Close])"

definition mergeRtpHeaderExtensionIds ::
  "RtpHeaderExtensionIds \<Rightarrow> RtpHeaderExtensionIds \<Rightarrow> RtpHeaderExtensionIds" where
  "mergeRtpHeaderExtensionIds ids producerRtpHeaderExtensionIds =
     (let ids = (if absSendTime producerRtpHeaderExtensionIds \<noteq> 0
                 then ids\<lparr>absSendTime := absSendTime producerRtpHeaderExtensionIds\<rparr> else ids);
          ids = (if mid producerRtpHeaderExtensionIds \<noteq> 0
                 then ids\<lparr>mid := mid producerRtpHeaderExtensionIds\<rparr> else ids);
          ids = (if rid producerRtpHeaderExtensionIds \<noteq> 0
                 then ids\<lparr>rid := rid producerRtpHeaderExtensionIds\<rparr> else ids)
      in ids)"

text \<open>
  \<open>HandleProducer\<close>: \<open>AddProducer\<close> may throw, and then nothing else happens.
\<close>

definition HandleProducer :: "Transport \<Rightarrow> Producer \<Rightarrow> MediaSoupError + Transport" where
  "HandleProducer t producer =
     (case AddProducer (rtpListener t) producer of
        Inl error \<Rightarrow> Inl error
      | Inr table \<Rightarrow>
          Inr (t\<lparr>rtpListener := table,
                 mapProducers := AList.update (producer_id producer) producer (mapProducers t),
                 rtpHeaderExtensionIds :=
                   mergeRtpHeaderExtensionIds (rtpHeaderExtensionIds t)
                     (producer_rtpHeaderExtensionIds producer)\<rparr>))"

text \<open>
  \<open>HandleConsumer\<close>: \<^verbatim>\<open>IsConnected()\<close> is a virtual method of the concrete transport; its
  result at the moment of the call is the argument \<open>isConnected\<close>.
\<close>

definition HandleConsumer :: "Transport \<Rightarrow> bool \<Rightarrow> Consumer \<Rightarrow> Transport \<times> Event list" where
  "HandleConsumer t isConnected consumer =
     (t\<lparr>mapConsumers := AList.update (consumer_id consumer) consumer (mapConsumers t)\<rparr>,
      if isConnected
      then (if consumer_kind consumer = VIDEO
            then [MS_DEBUG_2TAGS
                    ''requesting key frame for new Consumer since Transport already connected'' []]
            else [])
           @ [RequestKeyFrame consumer]
      else [])"

definition OnConsumerKeyFrameRequired :: "Consumer \<Rightarrow> Event list" where
  "OnConsumerKeyFrameRequired consumer = [OnTransportConsumerKeyFrameRequested consumer]"

section \<open>Incoming RTCP\<close>

definition encodingHasSsrc :: "RtpEncodingParameters \<Rightarrow> uint32 \<Rightarrow> bool" where
  "encodingHasSsrc encoding s =
     (ssrc encoding = s \<or> (hasRtx encoding \<and> rtx_ssrc encoding = s)
      \<or> (hasFec encoding \<and> fec_ssrc encoding = s))"

fun GetStartedConsumer_loop :: "(string \<times> Consumer) list \<Rightarrow> uint32 \<Rightarrow> Consumer option" where
  "GetStartedConsumer_loop [] s = None"
| "GetStartedConsumer_loop (kv # kvs) s =
     (if \<not> consumer_started (snd kv) then GetStartedConsumer_loop kvs s
      else if list_ex (\<lambda>encoding. encodingHasSsrc encoding s) (consumer_encodings (snd kv))
      then Some (snd kv)
      else GetStartedConsumer_loop kvs s)"

definition GetStartedConsumer :: "Transport \<Rightarrow> uint32 \<Rightarrow> Consumer option" where
  "GetStartedConsumer t s = GetStartedConsumer_loop (mapConsumers t) s"

text \<open>The loop over the reports of a Receiver Report packet: \<^verbatim>\<open>break\<close> at a miss.\<close>

fun ReceiverReport_loop :: "Transport \<Rightarrow> ReceiverReport list \<Rightarrow> Event list" where
  "ReceiverReport_loop t [] = []"
| "ReceiverReport_loop t (report # reports) =
     (case GetStartedConsumer t (rr_GetSsrc report) of
        None \<Rightarrow>
          [MS_WARN_TAG ''no Consumer found for received Receiver Report [ssrc:%u]''
             [unat (rr_GetSsrc report)]]
      | Some consumer \<Rightarrow>
          ReceiveRtcpReceiverReport consumer report # ReceiverReport_loop t reports)"

text \<open>The loop over the reports of a Sender Report packet: \<^verbatim>\<open>continue\<close> at a miss.\<close>

fun SenderReport_loop :: "Transport \<Rightarrow> SenderReport list \<Rightarrow> Event list" where
  "SenderReport_loop t [] = []"
| "SenderReport_loop t (report # reports) =
     (case GetProducer (rtpListener t) (sr_GetSsrc report) of
        None \<Rightarrow>
          MS_WARN_TAG ''no Producer found for received Sender Report [ssrc:%u]''
            [unat (sr_GetSsrc report)]
          # SenderReport_loop t reports
      | Some producer \<Rightarrow>
          ReceiveRtcpSenderReport producer report # SenderReport_loop t reports)"

fun Sdes_loop :: "Transport \<Rightarrow> SdesChunk list \<Rightarrow> Event list" where
  "Sdes_loop t [] = []"
| "Sdes_loop t (chunk # chunks) =
     (case GetProducer (rtpListener t) (chunk_GetSsrc chunk) of
        None \<Rightarrow>
          MS_WARN_TAG ''no Producer for received SDES chunk [ssrc:%u]''
            [unat (chunk_GetSsrc chunk)]
          # Sdes_loop t chunks
      | Some producer \<Rightarrow> Sdes_loop t chunks)"

definition ReceiveRtcpPacket :: "Transport \<Rightarrow> RtcpPacket \<Rightarrow> Transport \<times> Event list" where
  "ReceiveRtcpPacket t packet =
     (case packet of
        RR reports \<Rightarrow> (t, ReceiverReport_loop t reports)
      | PSFB feedback \<Rightarrow>
          (case ps_GetMessageType feedback of
             PLI \<Rightarrow>
               (case GetStartedConsumer t (ps_GetMediaSsrc feedback) of
                  None \<Rightarrow>
                    (t, [MS_WARN_TAG ''no Consumer found for received %s Feedback packet [sender ssrc:%u, media ssrc:%u]''
                           [unat (ps_GetMediaSsrc feedback), unat (ps_GetMediaSsrc feedback)]])
                | Some consumer \<Rightarrow>
                    (t, [MS_DEBUG_2TAGS ''%s received, requesting key frame for Consumer [sender ssrc:%u, media ssrc:%u]''
                           [unat (ps_GetMediaSsrc feedback), unat (ps_GetMediaSsrc feedback)],
                         ReceiveKeyFrameRequest consumer (ps_GetMessageType feedback)]))
           | FIR \<Rightarrow>
               (case GetStartedConsumer t (ps_GetMediaSsrc feedback) of
                  None \<Rightarrow>
                    (t, [MS_WARN_TAG ''no Consumer found for received %s Feedback packet [sender ssrc:%u, media ssrc:%u]''
                           [unat (ps_GetMediaSsrc feedback), unat (ps_GetMediaSsrc feedback)]])
                | Some consumer \<Rightarrow>
                    (t, [MS_DEBUG_2TAGS ''%s received, requesting key frame for Consumer [sender ssrc:%u, media ssrc:%u]''
                           [unat (ps_GetMediaSsrc feedback), unat (ps_GetMediaSsrc feedback)],
                         ReceiveKeyFrameRequest consumer (ps_GetMessageType feedback)]))
           | AFB \<Rightarrow>
               if afb_GetApplication feedback = REMB
               then (t\<lparr>availableOutgoingBitrate := remb_GetBitrate feedback\<rparr>, [])
               else (t, [MS_WARN_TAG ''ignoring unsupported %s Feedback PS AFB packet [sender ssrc:%u, media ssrc:%u]''
                           [unat (ps_GetMediaSsrc feedback), unat (ps_GetMediaSsrc feedback)]])
           | PS_OTHER m \<Rightarrow>
               (t, [MS_WARN_TAG ''ignoring unsupported %s Feedback packet [sender ssrc:%u, media ssrc:%u]''
                      [unat (ps_GetMediaSsrc feedback), unat (ps_GetMediaSsrc feedback)]]))
      | RTPFB feedback \<Rightarrow>
          (case GetStartedConsumer t (rtp_GetMediaSsrc feedback) of
             None \<Rightarrow>
               (t, [MS_WARN_TAG ''no Consumer found for received Feedback packet [sender ssrc:%u, media ssrc:%u]''
                      [unat (rtp_GetMediaSsrc feedback), unat (rtp_GetMediaSsrc feedback)]])
           | Some consumer \<Rightarrow>
               (case rtp_GetMessageType feedback of
                  NACK \<Rightarrow> (t, [ReceiveNack consumer feedback])
                | RTP_OTHER m \<Rightarrow>
                    (t, [MS_WARN_TAG ''ignoring unsupported %s Feedback packet [sender ssrc:%u, media ssrc:%u]''
                           [unat (rtp_GetMediaSsrc feedback), unat (rtp_GetMediaSsrc feedback)]])))
      | SR reports \<Rightarrow> (t, SenderReport_loop t reports)
      | SDES chunks \<Rightarrow> (t, Sdes_loop t chunks)
      | BYE \<Rightarrow> (t, [MS_DEBUG_TAG ''ignoring received RTCP BYE'' []])
      | OTHER_TYPE ty \<Rightarrow>
          (t, [MS_WARN_TAG ''unhandled RTCP type received [type:%u]'' [unat ty]]))"

section \<open>Single-precision arithmetic\<close>

text \<open>
  \<open>OnTimer\<close> multiplies the interval by a \<^verbatim>\<open>float\<close>. The model has the values of IEEE 754
  binary32 that occur there: a float is the real number it denotes, and every operation
  rounds its exact result to 24 significant bits, to nearest, ties to even. The values
  of \<open>OnTimer\<close> are far from the exponent limits of the format, so subnormal numbers,
  infinities and overflow are not represented.
\<close>

text \<open>The number of binary digits of a natural number.\<close>

fun bits :: "nat \<Rightarrow> nat" where
  "bits n = (if n = 0 then 0 else Suc (bits (n div 2)))"

declare bits.simps [simp del]

text \<open>Two to an integer power.\<close>

definition pow2 :: "int \<Rightarrow> real" where
  "pow2 k = (if 0 \<le> k then 2 ^ nat k else 1 / 2 ^ nat (- k))"

text \<open>Rounding to the nearest integer, ties to even.\<close>

definition rne :: "real \<Rightarrow> int" where
  "rne y =
     (let f = \<lfloor>y\<rfloor>; d = y - of_int f
      in if d < 1 / 2 then f else if 1 / 2 < d then f + 1 else if even f then f else f + 1)"

text \<open>The exponent \<open>e\<close> of a positive number: \<open>2^e \<le> x < 2^(e+1)\<close>.\<close>

definition f32_exponent :: "real \<Rightarrow> int" where
  "f32_exponent x =
     (if 1 \<le> x then int (bits (nat \<lfloor>x\<rfloor>)) - 1
      else - int (bits (nat (\<lceil>1 / x\<rceil> - 1))))"

definition f32_round :: "real \<Rightarrow> real" where
  "f32_round x =
     (if x \<le> 0 then 0
      else let u = pow2 (f32_exponent x - 23) in of_int (rne (x / u)) * u)"

text \<open>
  The conversions and operations of the source: an integer converted to \<^verbatim>\<open>float\<close>,
  division and multiplication of floats, and the conversion of a float to
  \<^verbatim>\<open>uint64_t\<close>, which truncates.
\<close>

definition f32_of_uint64 :: "uint64 \<Rightarrow> real" where
  "f32_of_uint64 v = f32_round (real (unat v))"

definition f32_of_uint32 :: "uint32 \<Rightarrow> real" where
  "f32_of_uint32 v = f32_round (real (unat v))"

definition f32_div :: "real \<Rightarrow> real \<Rightarrow> real" where
  "f32_div a b = f32_round (a / b)"

definition f32_mul :: "real \<Rightarrow> real \<Rightarrow> real" where
  "f32_mul a b = f32_round (a * b)"

definition uint64_of_f32 :: "real \<Rightarrow> uint64" where
  "uint64_of_f32 x = word_of_nat (nat \<lfloor>x\<rfloor>)"

section \<open>Outgoing RTCP\<close>

text \<open>
  Modelled from the spec: the constructor of CompoundPacket is not part of the source
  file. A fresh compound packet is an empty accumulator: no sender report, no receiver
  report, no content.
\<close>

definition CompoundPacket_new :: CompoundPacket where
  "CompoundPacket_new =
     \<lparr>HasSenderReport = False, GetReceiverReportCount = 0, GetSize = 0, content = []\<rparr>"

text \<open>
  The loop of \<open>SendRtcp\<close> over the consumers. The result is the list of events and the
  compound packet accumulated so far, or \<open>None\<close> when the function has returned from
  inside the loop.
\<close>

fun SendRtcp_consumers ::
  "Externals \<Rightarrow> uint64 \<Rightarrow> (string \<times> Consumer) list \<Rightarrow> CompoundPacket \<Rightarrow>
     Event list \<times> CompoundPacket option" where
  "SendRtcp_consumers ext now [] packet = ([], Some packet)"
| "SendRtcp_consumers ext now (kv # kvs) packet =
     (let packet = Consumer_GetRtcp ext (snd kv) packet now in
      if HasSenderReport packet
      then if GetSize packet > BufferSize ext
           then ([MS_WARN_TAG ''cannot send RTCP packet, size too big (%zu bytes)''
                    [GetSize packet]], None)
           else (case SendRtcp_consumers ext now kvs CompoundPacket_new of
                   (evs, result) \<Rightarrow>
                     (Serialize packet # SendRtcpCompoundPacket packet # evs, result))
      else SendRtcp_consumers ext now kvs packet)"

definition SendRtcp :: "Externals \<Rightarrow> Transport \<Rightarrow> uint64 \<Rightarrow> Event list" where
  "SendRtcp ext t now =
     (case SendRtcp_consumers ext now (mapConsumers t) CompoundPacket_new of
        (evs, None) \<Rightarrow> evs
      | (evs, Some packet) \<Rightarrow>
          let packet = fold (\<lambda>producer packet. Producer_GetRtcp ext producer packet now)
                         (producers ext) packet
          in if GetReceiverReportCount packet \<noteq> 0
             then if GetSize packet > BufferSize ext
                  then evs @ [MS_WARN_TAG ''cannot send RTCP packet, size too big (%zu bytes)''
                                [GetSize packet]]
                  else evs @ [Serialize packet, SendRtcpCompoundPacket packet]
             else evs)"

section \<open>The RTCP timer\<close>

text \<open>
  \<open>OnTimer\<close>. The loop that sums the transmission rates in kbit/s is
  \<open>transmissionRate\<close>; the interval before the random factor is
  \<open>recalculatedInterval\<close>; the statement that multiplies it by
  \<^verbatim>\<open>static_cast<float>(GetRandomUInt(5, 15)) / 10\<close> is \<open>randomizedInterval\<close>, with the
  random number as an argument. The argument \<open>isRtcpTimer\<close> is the test
  \<^verbatim>\<open>timer == this->rtcpTimer\<close>, and \<open>now\<close> is \<^verbatim>\<open>DepLibUV::GetTime()\<close>.
\<close>

definition transmissionRate :: "Externals \<Rightarrow> Transport \<Rightarrow> uint64 \<Rightarrow> uint32" where
  "transmissionRate ext t now =
     fold (\<lambda>kv rate. rate + Consumer_GetTransmissionRate ext (snd kv) now div 1000)
       (mapConsumers t) 0"

definition recalculatedInterval :: "Externals \<Rightarrow> Transport \<Rightarrow> uint64 \<Rightarrow> uint64" where
  "recalculatedInterval ext t now =
     (let interval = MaxVideoIntervalMs ext
      in if mapConsumers t \<noteq> []
         then let rate = transmissionRate ext t now;
                  interval = (if rate \<noteq> 0 then ucast ((360000 :: uint32) div rate) else interval)
              in if interval > MaxVideoIntervalMs ext then MaxVideoIntervalMs ext else interval
         else interval)"

definition randomizedInterval :: "uint64 \<Rightarrow> uint32 \<Rightarrow> uint64" where
  "randomizedInterval interval random =
     uint64_of_f32 (f32_mul (f32_of_uint64 interval) (f32_div (f32_of_uint32 random) (f32_round 10)))"

definition OnTimer :: "Externals \<Rightarrow> Transport \<Rightarrow> bool \<Rightarrow> uint64 \<Rightarrow> uint32 \<Rightarrow> Event list" where
  "OnTimer ext t isRtcpTimer now random =
     (if isRtcpTimer
      then let sent = SendRtcp ext t now;
               interval = recalculatedInterval ext t now;
               interval = randomizedInterval interval random
           in sent @ [Timer_Start interval]
      else [])"

section \<open>Sequences of operations\<close>

datatype Operation =
    Op_HandleProducer Producer
  | Op_HandleConsumer bool Consumer
  | Op_HandleRequest Consumer Request
  | Op_ReceiveRtcpPacket RtcpPacket
  | Op_Close

text \<open>A \<open>HandleProducer\<close> that throws leaves the transport as it was.\<close>

fun step :: "Transport \<Rightarrow> Operation \<Rightarrow> Transport" where
  "step t (Op_HandleProducer producer) =
     (case HandleProducer t producer of Inl error \<Rightarrow> t | Inr t' \<Rightarrow> t')"
| "step t (Op_HandleConsumer isConnected consumer) = fst (HandleConsumer t isConnected consumer)"
| "step t (Op_HandleRequest consumer request) = fst (HandleRequest consumer t request)"
| "step t (Op_ReceiveRtcpPacket packet) = fst (ReceiveRtcpPacket t packet)"
| "step t Op_Close = fst (Close t)"

definition run :: "Operation list \<Rightarrow> Transport" where
  "run ops = foldl step Transport_new ops"

section \<open>Example inputs\<close>

definition producer_p1 :: Producer where
  "producer_p1 =
     \<lparr>producer_addr = 1, producer_id = ''p1'',
      producer_encodings =
        [\<lparr>ssrc = 100, hasRtx = False, rtx_ssrc = 0, hasFec = False, fec_ssrc = 0\<rparr>],
      producer_rtpHeaderExtensionIds = \<lparr>absSendTime = 3, mid = 0, rid = 0\<rparr>\<rparr>"

definition consumer_c1 :: Consumer where
  "consumer_c1 =
     \<lparr>consumer_addr = 2, consumer_id = ''c1'', consumer_kind = VIDEO, consumer_started = True,
      consumer_encodings =
        [\<lparr>ssrc = 200, hasRtx = True, rtx_ssrc = 201, hasFec = False, fec_ssrc = 0\<rparr>]\<rparr>"

definition consumer_c2 :: Consumer where
  "consumer_c2 =
     \<lparr>consumer_addr = 3, consumer_id = ''c2'', consumer_kind = AUDIO, consumer_started = True,
      consumer_encodings =
        [\<lparr>ssrc = 300, hasRtx = False, rtx_ssrc = 0, hasFec = False, fec_ssrc = 0\<rparr>]\<rparr>"

definition bitrate_request :: "json \<Rightarrow> Request" where
  "bitrate_request j =
     \<lparr>methodId = TRANSPORT_SET_MAX_INCOMING_BITRATE, internal = [], data = [(''bitrate'', j)]\<rparr>"

definition producer_close_request :: "json \<Rightarrow> Request" where
  "producer_close_request j =
     \<lparr>methodId = PRODUCER_CLOSE, internal = [(''producerId'', j)], data = []\<rparr>"

definition consumer_close_request :: "json \<Rightarrow> Request" where
  "consumer_close_request j =
     \<lparr>methodId = CONSUMER_CLOSE, internal = [(''consumerId'', j)], data = []\<rparr>"

text \<open>
  A transport with the producer \<open>p1\<close> and the consumers \<open>c1\<close> and \<open>c2\<close> registered.
\<close>

definition transport_A :: Transport where
  "transport_A =
     run [Op_HandleProducer producer_p1, Op_HandleConsumer True consumer_c1,
          Op_HandleConsumer True consumer_c2]"

text \<open>
  The transport \<open>transport_A\<close> with its consumers in the other order.
\<close>

definition transport_B :: Transport where
  "transport_B = transport_A\<lparr>mapConsumers := [(''c2'', consumer_c2), (''c1'', consumer_c1)]\<rparr>"

text \<open>
  Example externals: the buffer holds 1000 bytes; a video consumer adds a sender report
  of 600 bytes, any other consumer adds 900 bytes without a sender report, and a
  producer adds a receiver report of 200 bytes.
\<close>

definition externals_E :: Externals where
  "externals_E =
     \<lparr>BufferSize = 1000, MaxVideoIntervalMs = 1000, producers = [producer_p1],
      Consumer_GetRtcp = (\<lambda>consumer packet now.
         if consumer_kind consumer = VIDEO
         then packet\<lparr>HasSenderReport := True, GetSize := GetSize packet + 600,
                     content := content packet @ [consumer_addr consumer]\<rparr>
         else packet\<lparr>GetSize := GetSize packet + 900,
                     content := content packet @ [consumer_addr consumer]\<rparr>),
      Producer_GetRtcp = (\<lambda>producer packet now.
         packet\<lparr>GetReceiverReportCount := GetReceiverReportCount packet + 1,
                GetSize := GetSize packet + 200,
                content := content packet @ [producer_addr producer]\<rparr>),
      Consumer_GetTransmissionRate = (\<lambda>consumer now. 361000)\<rparr>"

text \<open>The externals \<open>externals_E\<close> with consumers that send 2117000 bit/s.\<close>

definition externals_F :: Externals where
  "externals_F = externals_E\<lparr>Consumer_GetTransmissionRate := (\<lambda>consumer now. 2117000)\<rparr>"

text \<open>A consumer that is not registered with any transport.\<close>

definition consumer_c3 :: Consumer where
  "consumer_c3 =
     \<lparr>consumer_addr = 4, consumer_id = ''c3'', consumer_kind = VIDEO, consumer_started = False,
      consumer_encodings = []\<rparr>"

text \<open>A transport with the single consumer \<open>c1\<close>.\<close>

definition transport_C :: Transport where
  "transport_C = run [Op_HandleConsumer True consumer_c1]"

section \<open>Lifetime of consumers\<close>

text \<open>
  A transport owns the consumers of its consumers map; these are the live objects.
  \<open>consumer_used\<close> is the consumer an event dereferences or deletes, \<open>after_event\<close> removes
  a deleted consumer from the live ones, and \<open>dangling_use\<close> holds of a list of events
  when one of them uses a consumer that is not live at that point: an object the
  transport never owned, or one already deleted. In the program this is undefined
  behaviour (a use after free or a double delete), not a normal return.
\<close>

fun consumer_used :: "Event \<Rightarrow> Consumer option" where
  "consumer_used (OnTransportConsumerClosed c) = Some c"
| "consumer_used (OnTransportConsumerKeyFrameRequested c) = Some c"
| "consumer_used (Delete_Consumer c) = Some c"
| "consumer_used (RequestKeyFrame c) = Some c"
| "consumer_used (ReceiveRtcpReceiverReport c report) = Some c"
| "consumer_used (ReceiveKeyFrameRequest c messageType) = Some c"
| "consumer_used (ReceiveNack c packet) = Some c"
| "consumer_used e = None"

fun after_event :: "Consumer list \<Rightarrow> Event \<Rightarrow> Consumer list" where
  "after_event live (Delete_Consumer c) = removeAll c live"
| "after_event live e = live"

fun dangling_use :: "Consumer list \<Rightarrow> Event list \<Rightarrow> bool" where
  "dangling_use live [] = False"
| "dangling_use live (e # es) =
     (case consumer_used e of
        None \<Rightarrow> dangling_use (after_event live e) es
      | Some c \<Rightarrow> if c \<in> set live then dangling_use (after_event live e) es else True)"

section \<open>Exceptional conditions\<close>

text \<open>
  The responses and the warnings among the events, and the conditions under which a
  request or a packet is exceptional: a missing or mistyped field, an unknown id, an
  unknown method, an unknown RTCP type or subtype, no peer for an SSRC.
\<close>

fun is_response :: "Event \<Rightarrow> bool" where
  "is_response Accept = True"
| "is_response (Reject reason) = True"
| "is_response e = False"

fun is_warning :: "Event \<Rightarrow> bool" where
  "is_warning (MS_WARN_TAG message args) = True"
| "is_warning e = False"

definition exceptional_request :: "Transport \<Rightarrow> Request \<Rightarrow> bool" where
  "exceptional_request t request =
     (case methodId request of
        TRANSPORT_SET_MAX_INCOMING_BITRATE \<Rightarrow>
          (case map_of (data request) ''bitrate'' of
             None \<Rightarrow> True | Some j \<Rightarrow> \<not> is_number_unsigned j)
      | PRODUCER_CLOSE \<Rightarrow> isl (GetProducerFromRequest t request)
      | CONSUMER_CLOSE \<Rightarrow> isl (GetConsumerFromRequest t request)
      | OTHER_METHOD m \<Rightarrow> True)"

definition exceptional_packet :: "Transport \<Rightarrow> RtcpPacket \<Rightarrow> bool" where
  "exceptional_packet t packet =
     (case packet of
        RR reports \<Rightarrow> list_ex (\<lambda>r. GetStartedConsumer t (rr_GetSsrc r) = None) reports
      | PSFB feedback \<Rightarrow>
          (case ps_GetMessageType feedback of
             PLI \<Rightarrow> GetStartedConsumer t (ps_GetMediaSsrc feedback) = None
           | FIR \<Rightarrow> GetStartedConsumer t (ps_GetMediaSsrc feedback) = None
           | AFB \<Rightarrow> afb_GetApplication feedback \<noteq> REMB
           | PS_OTHER m \<Rightarrow> True)
      | RTPFB feedback \<Rightarrow>
          GetStartedConsumer t (rtp_GetMediaSsrc feedback) = None
          \<or> rtp_GetMessageType feedback \<noteq> NACK
      | SR reports \<Rightarrow> list_ex (\<lambda>r. GetProducer (rtpListener t) (sr_GetSsrc r) = None) reports
      | SDES chunks \<Rightarrow>
          list_ex (\<lambda>c. GetProducer (rtpListener t) (chunk_GetSsrc c) = None) chunks
      | BYE \<Rightarrow> False
      | OTHER_TYPE ty \<Rightarrow> True)"

section \<open>The producers map and the listener table\<close>

text \<open>
  The entries of a table under one key. A primary SSRC is present exactly once, for a
  producer, when its entries are the single pair of the SSRC and that producer.
\<close>

definition entries :: "('k \<times> 'v) list \<Rightarrow> 'k \<Rightarrow> ('k \<times> 'v) list" where
  "entries table k = filter (\<lambda>e. fst e = k) table"

definition producers_registered :: "Transport \<Rightarrow> bool" where
  "producers_registered t =
     (\<forall>kv \<in> set (mapProducers t). producer_id (snd kv) = fst kv \<and>
        (\<forall>s \<in> set (primarySsrcs (snd kv)). entries (rtpListener t) s = [(s, snd kv)]))"

definition wf_tables :: "Transport \<Rightarrow> bool" where
  "wf_tables t = (distinct (map fst (mapProducers t)) \<and> distinct (map fst (rtpListener t)))"

definition transport_inv :: "Transport \<Rightarrow> bool" where
  "transport_inv t = (wf_tables t \<and> producers_registered t)"

section \<open>Facts about the example inputs\<close>

lemma transport_A_eq:
  "transport_A =
     \<lparr>mapProducers = [(''p1'', producer_p1)],
      mapConsumers = [(''c1'', consumer_c1), (''c2'', consumer_c2)],
      rtpListener = [(100, producer_p1)],
      rtpHeaderExtensionIds = \<lparr>absSendTime = 3, mid = 0, rid = 0\<rparr>,
      maxIncomingBitrate = 0, availableOutgoingBitrate = 0\<rparr>"
  by (simp add: transport_A_def run_def Transport_new_def HandleProducer_def AddProducer_def
      HasSsrc_def primarySsrcs_def HandleConsumer_def mergeRtpHeaderExtensionIds_def
      producer_p1_def consumer_c1_def consumer_c2_def)

section \<open>The maximum incoming bitrate\<close>

lemma unat_ucast_64_32: "unat (ucast (v :: uint64) :: uint32) = unat v mod 2 ^ 32"
  by transfer (simp add: take_bit_eq_mod nat_mod_distrib)

lemma unat_clamp_MinBitrate:
  "unat (if (b :: uint32) < MinBitrate then MinBitrate else b) = max (unat b) 10000"
  by (auto simp: MinBitrate_def word_less_nat_alt max_def)

text \<open>
  C3, as the code has it. A \<^verbatim>\<open>TRANSPORT_SET_MAX_INCOMING_BITRATE\<close> request whose
  \<open>data.bitrate\<close> is an unsigned number \<open>v\<close> is accepted, and afterwards
  \<open>maxIncomingBitrate\<close> is the maximum of 10000 and the low 32 bits of \<open>v\<close>, which is
  \<open>max v 10000\<close> whenever \<open>v\<close> fits in 32 bits. A request whose \<open>data.bitrate\<close> is missing
  or is not an unsigned number is rejected with the reason \<open>missing bitrate\<close> and the
  transport is unchanged.
\<close>

theorem set_max_incoming_bitrate:
  "methodId request = TRANSPORT_SET_MAX_INCOMING_BITRATE \<Longrightarrow>
   (map_of (data request) ''bitrate'' = Some (J_number_unsigned v) \<longrightarrow>
      snd (HandleRequest consumer t request) =
        [MS_DEBUG_TAG ''Transport maximum incoming bitrate set to %ubps''
           [max (unat v mod 2 ^ 32) 10000], Accept] \<and>
      unat (maxIncomingBitrate (fst (HandleRequest consumer t request))) =
        max (unat v mod 2 ^ 32) 10000 \<and>
      (unat v < 2 ^ 32 \<longrightarrow>
         unat (maxIncomingBitrate (fst (HandleRequest consumer t request))) = max (unat v) 10000))
   \<and> ((\<forall>w. map_of (data request) ''bitrate'' \<noteq> Some (J_number_unsigned w)) \<longrightarrow>
        HandleRequest consumer t request = (t, [Reject ''missing bitrate'']))"
proof (intro conjI impI)
  assume m: "methodId request = TRANSPORT_SET_MAX_INCOMING_BITRATE"
  {
    assume b: "map_of (data request) ''bitrate'' = Some (J_number_unsigned v)"
    show "snd (HandleRequest consumer t request) =
         [MS_DEBUG_TAG ''Transport maximum incoming bitrate set to %ubps''
            [max (unat v mod 2 ^ 32) 10000], Accept]"
      using m b by (simp add: HandleRequest_def Let_def unat_clamp_MinBitrate unat_ucast_64_32)
    show r: "unat (maxIncomingBitrate (fst (HandleRequest consumer t request))) =
        max (unat v mod 2 ^ 32) 10000"
      using m b by (simp add: HandleRequest_def Let_def unat_clamp_MinBitrate unat_ucast_64_32)
    assume "unat v < 2 ^ 32"
    then show "unat (maxIncomingBitrate (fst (HandleRequest consumer t request))) =
        max (unat v) 10000"
      using r by simp
  }
  assume n: "\<forall>w. map_of (data request) ''bitrate'' \<noteq> Some (J_number_unsigned w)"
  show "HandleRequest consumer t request = (t, [Reject ''missing bitrate''])"
  proof (cases "map_of (data request) ''bitrate''")
    case None
    then show ?thesis using m by (simp add: HandleRequest_def)
  next
    case (Some j)
    with n have "\<not> is_number_unsigned j" by (cases j) auto
    then show ?thesis using m Some by (simp add: HandleRequest_def)
  qed
qed

theorem set_max_incoming_bitrate_witness:
  "unat (maxIncomingBitrate (fst (HandleRequest consumer_c1 Transport_new
      (bitrate_request (J_number_unsigned 500))))) = 10000
   \<and> snd (HandleRequest consumer_c1 Transport_new (bitrate_request (J_number_unsigned 500))) =
       [MS_DEBUG_TAG ''Transport maximum incoming bitrate set to %ubps'' [10000], Accept]
   \<and> HandleRequest consumer_c1 Transport_new (bitrate_request (J_string ''500'')) =
       (Transport_new, [Reject ''missing bitrate''])"
  using set_max_incoming_bitrate [of "bitrate_request (J_number_unsigned 500)" 500
      consumer_c1 Transport_new]
    set_max_incoming_bitrate [of "bitrate_request (J_string ''500'')" 0
      consumer_c1 Transport_new]
  by (simp add: bitrate_request_def)

text \<open>
  C3, as stated, fails for a value that does not fit in 32 bits: for
  \<open>data.bitrate = 4294967296\<close> the request is accepted and \<open>maxIncomingBitrate\<close> is
  10000, not 4294967296.
\<close>

theorem set_max_incoming_bitrate_counterexample:
  "snd (HandleRequest consumer_c1 Transport_new (bitrate_request (J_number_unsigned 4294967296)))
     = [MS_DEBUG_TAG ''Transport maximum incoming bitrate set to %ubps'' [10000], Accept]
   \<and> unat (maxIncomingBitrate (fst (HandleRequest consumer_c1 Transport_new
        (bitrate_request (J_number_unsigned 4294967296))))) = 10000
   \<and> unat (maxIncomingBitrate (fst (HandleRequest consumer_c1 Transport_new
        (bitrate_request (J_number_unsigned 4294967296)))))
       \<noteq> max (unat (4294967296 :: uint64)) 10000"
  by (simp add: HandleRequest_def bitrate_request_def MinBitrate_def Transport_new_def)

text \<open>
  C10. An accepted \<^verbatim>\<open>TRANSPORT_SET_MAX_INCOMING_BITRATE\<close> request changes no field of the
  transport other than \<open>maxIncomingBitrate\<close>: the producers map, the consumers map,
  \<open>rtpListener\<close>, the header extension ids and \<open>availableOutgoingBitrate\<close> are as before.
\<close>

theorem set_max_incoming_bitrate_frame:
  "methodId request = TRANSPORT_SET_MAX_INCOMING_BITRATE \<Longrightarrow>
   HandleRequest consumer t request = (t', evs) \<Longrightarrow> Accept \<in> set evs \<Longrightarrow>
   t' = t\<lparr>maxIncomingBitrate := maxIncomingBitrate t'\<rparr> \<and>
   mapProducers t' = mapProducers t \<and> mapConsumers t' = mapConsumers t \<and>
   rtpListener t' = rtpListener t \<and> rtpHeaderExtensionIds t' = rtpHeaderExtensionIds t \<and>
   availableOutgoingBitrate t' = availableOutgoingBitrate t"
  by (auto simp: HandleRequest_def Let_def split: option.splits if_splits)

theorem set_max_incoming_bitrate_frame_witness:
  "HandleRequest consumer_c1 transport_A (bitrate_request (J_number_unsigned 500)) =
     (transport_A\<lparr>maxIncomingBitrate := 10000\<rparr>,
      [MS_DEBUG_TAG ''Transport maximum incoming bitrate set to %ubps'' [10000], Accept])
   \<and> mapProducers (transport_A\<lparr>maxIncomingBitrate := 10000\<rparr>) = [(''p1'', producer_p1)]
   \<and> rtpListener (transport_A\<lparr>maxIncomingBitrate := 10000\<rparr>) = rtpListener transport_A"
proof -
  have h: "HandleRequest consumer_c1 transport_A (bitrate_request (J_number_unsigned 500)) =
     (transport_A\<lparr>maxIncomingBitrate := 10000\<rparr>,
      [MS_DEBUG_TAG ''Transport maximum incoming bitrate set to %ubps'' [10000], Accept])"
    by (simp add: HandleRequest_def bitrate_request_def MinBitrate_def)
  show ?thesis
    using h set_max_incoming_bitrate_frame [OF _ h]
    by (simp add: bitrate_request_def transport_A_eq)
qed

section \<open>Producers and the listener table\<close>

lemma entries_distinct:
  "distinct (map fst table) \<Longrightarrow> map_of table k = Some v \<Longrightarrow> entries table k = [(k, v)]"
  unfolding entries_def
proof (induction table)
  case Nil
  then show ?case by simp
next
  case (Cons e table)
  show ?case
  proof (cases "fst e = k")
    case True
    with Cons.prems have "e = (k, v)" by (cases e) auto
    moreover have "fst e \<notin> fst ` set table"
      using Cons.prems(1) by simp
    then have "filter (\<lambda>e. fst e = k) table = []"
      unfolding filter_empty_conv using True by blast
    ultimately show ?thesis by simp
  next
    case False
    then show ?thesis using Cons by (cases e) auto
  qed
qed

lemma entries_map_of: "entries table k = [(k, v)] \<Longrightarrow> map_of table k = Some v"
  unfolding entries_def
  by (induction table) (auto split: if_splits)

lemma fold_update_keys:
  "distinct (map fst table) \<Longrightarrow>
   distinct (map fst (fold (\<lambda>s tb. AList.update s p tb) ss table))"
  by (induction ss arbitrary: table) (auto simp: distinct_update)

lemma map_of_fold_update:
  "map_of (fold (\<lambda>s tb. AList.update s p tb) ss table) k =
     (if k \<in> set ss then Some p else map_of table k)"
  by (induction ss arbitrary: table) (auto simp: update_conv')

lemma AddProducer_Inr:
  assumes "AddProducer table p = Inr table'"
  shows "map_of table' k = (if k \<in> set (primarySsrcs p) then Some p else map_of table k)"
    and "distinct (map fst table) \<Longrightarrow> distinct (map fst table')"
    and "k \<in> set (primarySsrcs p) \<Longrightarrow> map_of table k = Some q \<Longrightarrow> q = p"
  using assms
  by (auto simp: AddProducer_def map_of_fold_update fold_update_keys HasSsrc_def list_ex_iff
      split: if_splits option.splits)

lemma set_update_subset: "set (AList.update k v al) \<subseteq> insert (k, v) (set al)"
  by (induction al) auto

lemma map_of_RemoveProducer:
  "distinct (map fst table) \<Longrightarrow> map_of table k = Some q \<Longrightarrow> q \<noteq> p \<Longrightarrow>
   map_of (RemoveProducer table p) k = Some q"
  unfolding RemoveProducer_def
  by (induction table) (auto simp: rev_image_eqI)

lemma distinct_RemoveProducer:
  "distinct (map fst table) \<Longrightarrow> distinct (map fst (RemoveProducer table p))"
  unfolding RemoveProducer_def by (simp add: distinct_map_filter)

lemma RemoveProducer_absent: "p \<notin> snd ` set (RemoveProducer table p)"
  unfolding RemoveProducer_def by auto

lemma transport_inv_map_of:
  "transport_inv t \<Longrightarrow> (k, p) \<in> set (mapProducers t) \<Longrightarrow> s \<in> set (primarySsrcs p) \<Longrightarrow>
   map_of (rtpListener t) s = Some p"
proof -
  assume i: "transport_inv t" and m: "(k, p) \<in> set (mapProducers t)" and s: "s \<in> set (primarySsrcs p)"
  from i m have "\<forall>s \<in> set (primarySsrcs p). entries (rtpListener t) s = [(s, p)]"
    unfolding transport_inv_def producers_registered_def by force
  with s show ?thesis by (simp add: entries_map_of)
qed

lemma transport_invI:
  assumes "distinct (map fst (mapProducers t))" "distinct (map fst (rtpListener t))"
    and "\<And>k p. (k, p) \<in> set (mapProducers t) \<Longrightarrow> producer_id p = k"
    and "\<And>k p s. (k, p) \<in> set (mapProducers t) \<Longrightarrow> s \<in> set (primarySsrcs p) \<Longrightarrow>
           map_of (rtpListener t) s = Some p"
  shows "transport_inv t"
  using assms by (auto simp: transport_inv_def wf_tables_def producers_registered_def entries_distinct)

lemma transport_inv_HandleProducer:
  assumes "transport_inv t" "HandleProducer t p = Inr t'"
  shows "transport_inv t'"
proof -
  from assms(2) obtain table where
    add: "AddProducer (rtpListener t) p = Inr table"
    and t': "t' = t\<lparr>rtpListener := table,
                 mapProducers := AList.update (producer_id p) p (mapProducers t),
                 rtpHeaderExtensionIds :=
                   mergeRtpHeaderExtensionIds (rtpHeaderExtensionIds t)
                     (producer_rtpHeaderExtensionIds p)\<rparr>"
    by (auto simp: HandleProducer_def split: sum.splits)
  have d: "distinct (map fst (mapProducers t))" "distinct (map fst (rtpListener t))"
    using assms(1) by (auto simp: transport_inv_def wf_tables_def)
  show ?thesis
  proof (rule transport_invI)
    show "distinct (map fst (mapProducers t'))" using d t' by (simp add: distinct_update)
    show "distinct (map fst (rtpListener t'))" using d t' AddProducer_Inr(2)[OF add] by simp
  next
    fix k q assume "(k, q) \<in> set (mapProducers t')"
    then have c: "(k, q) = (producer_id p, p) \<or> (k, q) \<in> set (mapProducers t)"
      using t' set_update_subset[of "producer_id p" p "mapProducers t"] by auto
    then show "producer_id q = k"
      using assms(1) by (auto simp: transport_inv_def producers_registered_def)
    fix s assume s: "s \<in> set (primarySsrcs q)"
    show "map_of (rtpListener t') s = Some q"
    proof (cases "(k, q) = (producer_id p, p)")
      case True
      then show ?thesis using s t' AddProducer_Inr(1)[OF add] by simp
    next
      case False
      with c have m: "(k, q) \<in> set (mapProducers t)" by auto
      then have old: "map_of (rtpListener t) s = Some q"
        using transport_inv_map_of[OF assms(1)] s by blast
      show ?thesis
      proof (cases "s \<in> set (primarySsrcs p)")
        case True
        then have "q = p" using AddProducer_Inr(3)[OF add] old by blast
        then show ?thesis using True t' AddProducer_Inr(1)[OF add] by simp
      next
        case False
        then show ?thesis using old t' AddProducer_Inr(1)[OF add] by simp
      qed
    qed
  qed
qed

lemma GetProducerFromRequest_Inr:
  "GetProducerFromRequest t request = Inr p \<longleftrightarrow>
   (\<exists>producerId. map_of (internal request) ''producerId'' = Some (J_string producerId) \<and>
      map_of (mapProducers t) producerId = Some p)"
proof (cases "map_of (internal request) ''producerId''")
  case None
  then show ?thesis by (simp add: GetProducerFromRequest_def)
next
  case (Some j)
  then show ?thesis
    by (cases j) (auto simp: GetProducerFromRequest_def split: option.splits)
qed

lemma HandleRequest_PRODUCER_CLOSE_Inr:
  "methodId request = PRODUCER_CLOSE \<Longrightarrow> GetProducerFromRequest t request = Inr p \<Longrightarrow>
   HandleRequest consumer t request =
     (t\<lparr>mapProducers := AList.delete (producer_id p) (mapProducers t),
        rtpListener := RemoveProducer (rtpListener t) p\<rparr>,
      [OnTransportProducerClosed p, Delete_Producer p, Accept])"
  by (simp add: HandleRequest_def)

lemma HandleRequest_PRODUCER_CLOSE_Inl:
  "methodId request = PRODUCER_CLOSE \<Longrightarrow> GetProducerFromRequest t request = Inl e \<Longrightarrow>
   HandleRequest consumer t request = (t, [Reject (what e)])"
  by (simp add: HandleRequest_def)

lemma set_delete: "set (AList.delete k al) = {e \<in> set al. fst e \<noteq> k}"
  by (auto simp: AList.delete_eq)

lemma transport_inv_close_producer:
  assumes "transport_inv t" "map_of (mapProducers t) pid = Some p"
  shows "transport_inv (t\<lparr>mapProducers := AList.delete (producer_id p) (mapProducers t),
        rtpListener := RemoveProducer (rtpListener t) p\<rparr>)"
proof -
  have d: "distinct (map fst (mapProducers t))" "distinct (map fst (rtpListener t))"
    using assms(1) by (auto simp: transport_inv_def wf_tables_def)
  have kc: "\<And>k q. (k, q) \<in> set (mapProducers t) \<Longrightarrow> producer_id q = k"
    using assms(1) by (auto simp: transport_inv_def producers_registered_def)
  show ?thesis
  proof (rule transport_invI)
    show "distinct (map fst (mapProducers (t\<lparr>mapProducers := AList.delete (producer_id p) (mapProducers t),
        rtpListener := RemoveProducer (rtpListener t) p\<rparr>)))"
      using d by (simp add: distinct_delete)
    show "distinct (map fst (rtpListener (t\<lparr>mapProducers := AList.delete (producer_id p) (mapProducers t),
        rtpListener := RemoveProducer (rtpListener t) p\<rparr>)))"
      using d by (simp add: distinct_RemoveProducer)
  next
    fix k q
    assume "(k, q) \<in> set (mapProducers (t\<lparr>mapProducers := AList.delete (producer_id p) (mapProducers t),
        rtpListener := RemoveProducer (rtpListener t) p\<rparr>))"
    then have m: "(k, q) \<in> set (mapProducers t)" and ne: "k \<noteq> producer_id p"
      by (auto simp: set_delete)
    show "producer_id q = k" using kc m by blast
    then have "q \<noteq> p" using ne by auto
    fix s assume "s \<in> set (primarySsrcs q)"
    then have "map_of (rtpListener t) s = Some q" using transport_inv_map_of[OF assms(1) m] by blast
    then show "map_of (rtpListener (t\<lparr>mapProducers := AList.delete (producer_id p) (mapProducers t),
        rtpListener := RemoveProducer (rtpListener t) p\<rparr>)) s = Some q"
      using map_of_RemoveProducer[OF d(2)] \<open>q \<noteq> p\<close> by simp
  qed
qed

lemma transport_inv_HandleRequest:
  assumes "transport_inv t"
  shows "transport_inv (fst (HandleRequest consumer t request))"
proof (cases "methodId request")
  case TRANSPORT_SET_MAX_INCOMING_BITRATE
  then show ?thesis using assms
    by (auto simp: HandleRequest_def Let_def transport_inv_def wf_tables_def producers_registered_def
        split: option.splits)
next
  case PRODUCER_CLOSE
  show ?thesis
  proof (cases "GetProducerFromRequest t request")
    case (Inl e)
    then show ?thesis using assms PRODUCER_CLOSE by (simp add: HandleRequest_PRODUCER_CLOSE_Inl)
  next
    case (Inr p)
    then obtain pid where "map_of (mapProducers t) pid = Some p"
      by (auto simp: GetProducerFromRequest_Inr)
    then show ?thesis
      using transport_inv_close_producer[OF assms] PRODUCER_CLOSE Inr
      by (simp add: HandleRequest_PRODUCER_CLOSE_Inr)
  qed
next
  case CONSUMER_CLOSE
  then show ?thesis using assms
    by (auto simp: HandleRequest_def transport_inv_def wf_tables_def producers_registered_def
        split: sum.splits)
next
  case (OTHER_METHOD m)
  then show ?thesis using assms by (simp add: HandleRequest_def)
qed

lemma transport_inv_step: "transport_inv t \<Longrightarrow> transport_inv (step t operation)"
proof (cases operation)
  case (Op_HandleProducer p)
  assume "transport_inv t"
  then show ?thesis using Op_HandleProducer transport_inv_HandleProducer
    by (auto split: sum.splits)
next
  case (Op_HandleConsumer c k)
  assume "transport_inv t"
  then show ?thesis using Op_HandleConsumer
    by (simp add: HandleConsumer_def transport_inv_def wf_tables_def producers_registered_def)
next
  case (Op_HandleRequest c r)
  assume "transport_inv t"
  then show ?thesis using Op_HandleRequest transport_inv_HandleRequest by simp
next
  case (Op_ReceiveRtcpPacket packet)
  assume "transport_inv t"
  then show ?thesis using Op_ReceiveRtcpPacket
    by (auto simp: ReceiveRtcpPacket_def transport_inv_def wf_tables_def producers_registered_def
        split: RtcpPacket.splits FeedbackPsMessageType.splits option.splits
          FeedbackRtpMessageType.splits)
next
  case Op_Close
  assume "transport_inv t"
  then show ?thesis using Op_Close
    by (simp add: Close_def transport_inv_def wf_tables_def producers_registered_def)
qed

lemma transport_inv_foldl: "transport_inv t \<Longrightarrow> transport_inv (foldl step t ops)"
  by (induction ops arbitrary: t) (auto simp: transport_inv_step)

lemma transport_inv_run: "transport_inv (run ops)"
  unfolding run_def
  by (rule transport_inv_foldl) (simp add: transport_inv_def wf_tables_def producers_registered_def Transport_new_def)

lemma run_p1: "run [Op_HandleProducer producer_p1] = 
    \<lparr>mapProducers = [(''p1'', producer_p1)],
      mapConsumers = [],
      rtpListener = [(100, producer_p1)],
      rtpHeaderExtensionIds = \<lparr>absSendTime = 3, mid = 0, rid = 0\<rparr>,
      maxIncomingBitrate = 0, availableOutgoingBitrate = 0\<rparr>"
  by (simp add: run_def Transport_new_def HandleProducer_def AddProducer_def
      HasSsrc_def primarySsrcs_def mergeRtpHeaderExtensionIds_def producer_p1_def)

lemma producer_p1_simps:
  "producer_id producer_p1 = ''p1''" "primarySsrcs producer_p1 = [100]"
  by (simp_all add: producer_p1_def primarySsrcs_def)

text \<open>
  C1, as the code has it. In every state reached from a new transport by any sequence of
  operations (\<open>HandleProducer\<close>, requests, \<open>Close\<close>, and the others), each producer in the
  producers map has every primary SSRC of its RTP parameters present exactly once in
  \<open>rtpListener\<close>, for that producer. A \<^verbatim>\<open>PRODUCER_CLOSE\<close> request that finds its producer
  removes it from the map and removes all its entries from \<open>rtpListener\<close> in the same
  step. \<open>Close\<close> empties the producers map and leaves \<open>rtpListener\<close> as it was.
\<close>

theorem producers_registered_run:
  "(\<forall>kv \<in> set (mapProducers (run ops)). \<forall>s \<in> set (primarySsrcs (snd kv)).
       entries (rtpListener (run ops)) s = [(s, snd kv)])
   \<and> (methodId request = PRODUCER_CLOSE \<longrightarrow>
        GetProducerFromRequest (run ops) request = Inr producer \<longrightarrow>
          producer \<notin> snd ` set (mapProducers (fst (HandleRequest consumer (run ops) request))) \<and>
          producer \<notin> snd ` set (rtpListener (fst (HandleRequest consumer (run ops) request))))
   \<and> mapProducers (fst (Close (run ops))) = []
   \<and> rtpListener (fst (Close (run ops))) = rtpListener (run ops)"
proof (intro conjI impI)
  show "\<forall>kv \<in> set (mapProducers (run ops)). \<forall>s \<in> set (primarySsrcs (snd kv)).
       entries (rtpListener (run ops)) s = [(s, snd kv)]"
    using transport_inv_run[of ops] by (simp add: transport_inv_def producers_registered_def)
  show "mapProducers (fst (Close (run ops))) = []" by (simp add: Close_def)
  show "rtpListener (fst (Close (run ops))) = rtpListener (run ops)" by (simp add: Close_def)
next
  assume m: "methodId request = PRODUCER_CLOSE"
    and g: "GetProducerFromRequest (run ops) request = Inr producer"
  have kc: "\<And>k q. (k, q) \<in> set (mapProducers (run ops)) \<Longrightarrow> producer_id q = k"
    using transport_inv_run[of ops] by (auto simp: transport_inv_def producers_registered_def)
  show "producer \<notin> snd ` set (mapProducers (fst (HandleRequest consumer (run ops) request)))"
    using kc by (auto simp: HandleRequest_PRODUCER_CLOSE_Inr[OF m g] set_delete)
  show "producer \<notin> snd ` set (rtpListener (fst (HandleRequest consumer (run ops) request)))"
    using RemoveProducer_absent by (simp add: HandleRequest_PRODUCER_CLOSE_Inr[OF m g])
qed

theorem producers_registered_run_witness:
  "entries (rtpListener (run [Op_HandleProducer producer_p1])) 100 = [(100, producer_p1)]
   \<and> mapProducers (fst (HandleRequest consumer_c1 (run [Op_HandleProducer producer_p1])
         (producer_close_request (J_string ''p1'')))) = []
   \<and> producer_p1 \<notin> snd ` set (rtpListener (fst (HandleRequest consumer_c1
         (run [Op_HandleProducer producer_p1]) (producer_close_request (J_string ''p1'')))))"
proof -
  have g: "GetProducerFromRequest (run [Op_HandleProducer producer_p1])
      (producer_close_request (J_string ''p1'')) = Inr producer_p1"
    by (simp add: run_p1 GetProducerFromRequest_def producer_close_request_def)
  have m: "methodId (producer_close_request (J_string ''p1'')) = PRODUCER_CLOSE"
    by (simp add: producer_close_request_def)
  have e: "mapProducers (fst (HandleRequest consumer_c1 (run [Op_HandleProducer producer_p1])
         (producer_close_request (J_string ''p1'')))) = []"
    unfolding HandleRequest_PRODUCER_CLOSE_Inr[OF m g] by (simp add: run_p1 producer_p1_simps)
  show ?thesis
    using producers_registered_run [of "[Op_HandleProducer producer_p1]"
        "producer_close_request (J_string ''p1'')" producer_p1 consumer_c1] g m e
    by (simp add: run_p1 producer_p1_simps)
qed

text \<open>
  C1, as stated, fails at \<open>Close\<close>: after registering the producer \<open>p1\<close> with SSRC 100
  and closing the transport, the producers map is empty and \<open>rtpListener\<close> still maps
  SSRC 100 to \<open>p1\<close>.
\<close>

theorem close_keeps_rtpListener_counterexample:
  "map_of (mapProducers (run [Op_HandleProducer producer_p1, Op_Close])) ''p1'' = None
   \<and> mapProducers (run [Op_HandleProducer producer_p1, Op_Close]) = []
   \<and> map_of (rtpListener (run [Op_HandleProducer producer_p1, Op_Close])) 100 = Some producer_p1"
  by (simp add: run_def Transport_new_def HandleProducer_def AddProducer_def
      HasSsrc_def primarySsrcs_def mergeRtpHeaderExtensionIds_def producer_p1_def Close_def)

text \<open>
  C4. In every reachable state, a \<^verbatim>\<open>PRODUCER_CLOSE\<close> request whose
  \<open>internal.producerId\<close> is a string naming a producer of the producers map removes that
  producer from the map and from \<open>rtpListener\<close>, then calls the listener's
  \<open>OnTransportProducerClosed\<close> once, then deletes the producer, then accepts. A request
  whose \<open>internal.producerId\<close> is missing, is not a string or names no producer is
  rejected, with the transport unchanged and no other call made.
\<close>

theorem producer_close:
  "methodId request = PRODUCER_CLOSE \<Longrightarrow>
   (map_of (internal request) ''producerId'' = Some (J_string producerId) \<longrightarrow>
    map_of (mapProducers (run ops)) producerId = Some producer \<longrightarrow>
      HandleRequest consumer (run ops) request =
        ((run ops)\<lparr>mapProducers := AList.delete producerId (mapProducers (run ops)),
                   rtpListener := RemoveProducer (rtpListener (run ops)) producer\<rparr>,
         [OnTransportProducerClosed producer, Delete_Producer producer, Accept]) \<and>
      map_of (AList.delete producerId (mapProducers (run ops))) producerId = None \<and>
      producer \<notin> snd ` set (AList.delete producerId (mapProducers (run ops))) \<and>
      producer \<notin> snd ` set (RemoveProducer (rtpListener (run ops)) producer))
   \<and> ((\<forall>producerId producer.
          map_of (internal request) ''producerId'' = Some (J_string producerId) \<longrightarrow>
          map_of (mapProducers (run ops)) producerId \<noteq> Some producer) \<longrightarrow>
        (\<exists>reason. HandleRequest consumer (run ops) request = (run ops, [Reject reason])))"
proof (intro conjI impI)
  assume m: "methodId request = PRODUCER_CLOSE"
  have kc: "\<And>k q. (k, q) \<in> set (mapProducers (run ops)) \<Longrightarrow> producer_id q = k"
    using transport_inv_run[of ops] by (auto simp: transport_inv_def producers_registered_def)
  {
    assume i: "map_of (internal request) ''producerId'' = Some (J_string producerId)"
      and p: "map_of (mapProducers (run ops)) producerId = Some producer"
    have g: "GetProducerFromRequest (run ops) request = Inr producer"
      using i p by (auto simp: GetProducerFromRequest_Inr)
    have pid: "producer_id producer = producerId"
      using kc map_of_SomeD[OF p] by blast
    show "HandleRequest consumer (run ops) request =
        ((run ops)\<lparr>mapProducers := AList.delete producerId (mapProducers (run ops)),
                   rtpListener := RemoveProducer (rtpListener (run ops)) producer\<rparr>,
         [OnTransportProducerClosed producer, Delete_Producer producer, Accept])"
      using HandleRequest_PRODUCER_CLOSE_Inr[OF m g] pid by simp
    show "map_of (AList.delete producerId (mapProducers (run ops))) producerId = None"
      by (simp add: delete_conv')
    show "producer \<notin> snd ` set (AList.delete producerId (mapProducers (run ops)))"
      using kc pid by (auto simp: set_delete)
    show "producer \<notin> snd ` set (RemoveProducer (rtpListener (run ops)) producer)"
      by (rule RemoveProducer_absent)
  }
  assume n: "\<forall>producerId producer.
          map_of (internal request) ''producerId'' = Some (J_string producerId) \<longrightarrow>
          map_of (mapProducers (run ops)) producerId \<noteq> Some producer"
  then have "\<And>p. GetProducerFromRequest (run ops) request \<noteq> Inr p"
    by (auto simp: GetProducerFromRequest_Inr)
  then obtain e where "GetProducerFromRequest (run ops) request = Inl e"
    by (cases "GetProducerFromRequest (run ops) request") auto
  then show "\<exists>reason. HandleRequest consumer (run ops) request = (run ops, [Reject reason])"
    using HandleRequest_PRODUCER_CLOSE_Inl[OF m] by blast
qed

theorem producer_close_witness:
  "HandleRequest consumer_c1 (run [Op_HandleProducer producer_p1])
       (producer_close_request (J_string ''p1'')) =
     (Transport_new\<lparr>rtpHeaderExtensionIds := \<lparr>absSendTime = 3, mid = 0, rid = 0\<rparr>\<rparr>,
      [OnTransportProducerClosed producer_p1, Delete_Producer producer_p1, Accept])
   \<and> (\<exists>reason. HandleRequest consumer_c1 (run [Op_HandleProducer producer_p1])
         (producer_close_request (J_string ''p2'')) =
           (run [Op_HandleProducer producer_p1], [Reject reason]))
   \<and> (\<exists>reason. HandleRequest consumer_c1 (run [Op_HandleProducer producer_p1])
         (producer_close_request (J_number_unsigned 1)) =
           (run [Op_HandleProducer producer_p1], [Reject reason]))"
  using producer_close [of "producer_close_request (J_string ''p1'')" "''p1''"
      "[Op_HandleProducer producer_p1]" producer_p1 consumer_c1]
    producer_close [of "producer_close_request (J_string ''p2'')" "''p2''"
      "[Op_HandleProducer producer_p1]" producer_p1 consumer_c1]
    producer_close [of "producer_close_request (J_number_unsigned 1)" "''p2''"
      "[Op_HandleProducer producer_p1]" producer_p1 consumer_c1]
  by (simp add: run_p1 producer_close_request_def RemoveProducer_def Transport_new_def
      producer_p1_simps)

section \<open>Receiver Reports and Sender Reports\<close>

lemma ReceiverReport_loop_hit:
  "\<forall>r \<in> set pre. GetStartedConsumer t (rr_GetSsrc r) \<noteq> None \<Longrightarrow>
   ReceiverReport_loop t (pre @ rest) =
     map (\<lambda>r. ReceiveRtcpReceiverReport (the (GetStartedConsumer t (rr_GetSsrc r))) r) pre
     @ ReceiverReport_loop t rest"
  by (induction pre) auto

lemma SenderReport_loop_map:
  "SenderReport_loop t reports =
     map (\<lambda>r. case GetProducer (rtpListener t) (sr_GetSsrc r) of
                 None \<Rightarrow> MS_WARN_TAG ''no Producer found for received Sender Report [ssrc:%u]''
                           [unat (sr_GetSsrc r)]
               | Some producer \<Rightarrow> ReceiveRtcpSenderReport producer r) reports"
  by (induction reports) (auto split: option.splits)

lemma GetStartedConsumer_A:
  "GetStartedConsumer transport_A 200 = Some consumer_c1"
  "GetStartedConsumer transport_A 201 = Some consumer_c1"
  "GetStartedConsumer transport_A 300 = Some consumer_c2"
  "GetStartedConsumer transport_A 400 = None"
  by (simp_all add: transport_A_eq GetStartedConsumer_def encodingHasSsrc_def)
     (simp_all add: consumer_c1_def consumer_c2_def encodingHasSsrc_def)

lemma GetProducer_A:
  "GetProducer (rtpListener transport_A) 100 = Some producer_p1"
  "GetProducer (rtpListener transport_A) 400 = None"
  by (simp_all add: transport_A_eq GetProducer_def)

text \<open>
  C2. For a Receiver Report packet the reports are handled in order: each report whose
  SSRC matches a started consumer is handed to that consumer, and at the first report
  that matches none a warning is logged and the remaining reports of the packet are
  not processed. For a Sender Report packet every report is handled: one whose SSRC
  matches no producer of \<open>rtpListener\<close> is logged, and the iteration goes on with the
  next report.
\<close>

theorem rr_stops_sr_continues:
  "((\<forall>r \<in> set pre. GetStartedConsumer t (rr_GetSsrc r) \<noteq> None) \<longrightarrow>
    GetStartedConsumer t (rr_GetSsrc miss) = None \<longrightarrow>
      ReceiveRtcpPacket t (RR (pre @ miss # post)) =
        (t, map (\<lambda>r. ReceiveRtcpReceiverReport (the (GetStartedConsumer t (rr_GetSsrc r))) r) pre
            @ [MS_WARN_TAG ''no Consumer found for received Receiver Report [ssrc:%u]''
                 [unat (rr_GetSsrc miss)]]))
   \<and> ((\<forall>r \<in> set reports. GetStartedConsumer t (rr_GetSsrc r) \<noteq> None) \<longrightarrow>
      ReceiveRtcpPacket t (RR reports) =
        (t, map (\<lambda>r. ReceiveRtcpReceiverReport (the (GetStartedConsumer t (rr_GetSsrc r))) r)
              reports))
   \<and> ReceiveRtcpPacket t (SR sreports) =
        (t, map (\<lambda>r. case GetProducer (rtpListener t) (sr_GetSsrc r) of
                 None \<Rightarrow> MS_WARN_TAG ''no Producer found for received Sender Report [ssrc:%u]''
                           [unat (sr_GetSsrc r)]
               | Some producer \<Rightarrow> ReceiveRtcpSenderReport producer r) sreports)"
proof (intro conjI impI)
  assume "\<forall>r \<in> set pre. GetStartedConsumer t (rr_GetSsrc r) \<noteq> None"
    and "GetStartedConsumer t (rr_GetSsrc miss) = None"
  then show "ReceiveRtcpPacket t (RR (pre @ miss # post)) =
        (t, map (\<lambda>r. ReceiveRtcpReceiverReport (the (GetStartedConsumer t (rr_GetSsrc r))) r) pre
            @ [MS_WARN_TAG ''no Consumer found for received Receiver Report [ssrc:%u]''
                 [unat (rr_GetSsrc miss)]])"
    by (simp add: ReceiveRtcpPacket_def ReceiverReport_loop_hit)
next
  assume "\<forall>r \<in> set reports. GetStartedConsumer t (rr_GetSsrc r) \<noteq> None"
  then show "ReceiveRtcpPacket t (RR reports) =
        (t, map (\<lambda>r. ReceiveRtcpReceiverReport (the (GetStartedConsumer t (rr_GetSsrc r))) r)
              reports)"
    using ReceiverReport_loop_hit[of reports t "[]"] by (simp add: ReceiveRtcpPacket_def)
next
  show "ReceiveRtcpPacket t (SR sreports) =
        (t, map (\<lambda>r. case GetProducer (rtpListener t) (sr_GetSsrc r) of
                 None \<Rightarrow> MS_WARN_TAG ''no Producer found for received Sender Report [ssrc:%u]''
                           [unat (sr_GetSsrc r)]
               | Some producer \<Rightarrow> ReceiveRtcpSenderReport producer r) sreports)"
    by (simp add: ReceiveRtcpPacket_def SenderReport_loop_map)
qed

theorem rr_stops_sr_continues_witness:
  "ReceiveRtcpPacket transport_A
      (RR [ReceiverReport 201 7, ReceiverReport 400 8, ReceiverReport 200 9]) =
     (transport_A,
      [ReceiveRtcpReceiverReport consumer_c1 (ReceiverReport 201 7),
       MS_WARN_TAG ''no Consumer found for received Receiver Report [ssrc:%u]'' [400]])
   \<and> ReceiveRtcpPacket transport_A (RR [ReceiverReport 300 7, ReceiverReport 200 9]) =
     (transport_A,
      [ReceiveRtcpReceiverReport consumer_c2 (ReceiverReport 300 7),
       ReceiveRtcpReceiverReport consumer_c1 (ReceiverReport 200 9)])
   \<and> ReceiveRtcpPacket transport_A (SR [SenderReport 400 1, SenderReport 100 2]) =
     (transport_A,
      [MS_WARN_TAG ''no Producer found for received Sender Report [ssrc:%u]'' [400],
       ReceiveRtcpSenderReport producer_p1 (SenderReport 100 2)])"
  using rr_stops_sr_continues [of "[ReceiverReport 201 7]" transport_A "ReceiverReport 400 8"
      "[ReceiverReport 200 9]" "[ReceiverReport 300 7, ReceiverReport 200 9]"
      "[SenderReport 400 1, SenderReport 100 2]"]
  by (simp add: GetStartedConsumer_A GetProducer_A)

section \<open>Compound packets and the buffer\<close>

lemma SendRtcp_consumers_sent:
  "SendRtcp_consumers ext now kvs packet = (evs, result) \<Longrightarrow>
   SendRtcpCompoundPacket p \<in> set evs \<Longrightarrow> GetSize p \<le> BufferSize ext"
proof (induction kvs arbitrary: packet evs result)
  case Nil
  then show ?case by simp
next
  case (Cons kv kvs)
  let ?packet = "Consumer_GetRtcp ext (snd kv) packet now"
  show ?case
  proof (cases "HasSenderReport ?packet")
    case False
    then show ?thesis using Cons by (simp add: Let_def)
  next
    case True
    show ?thesis
    proof (cases "GetSize ?packet > BufferSize ext")
      case big: True
      then show ?thesis using True Cons.prems by (auto simp: Let_def)
    next
      case small: False
      obtain evs' result' where r: "SendRtcp_consumers ext now kvs CompoundPacket_new = (evs', result')"
        by (cases "SendRtcp_consumers ext now kvs CompoundPacket_new")
      then have "evs = Serialize ?packet # SendRtcpCompoundPacket ?packet # evs'"
        using True small Cons.prems(1) by (simp add: Let_def)
      then have "p = ?packet \<or> SendRtcpCompoundPacket p \<in> set evs'"
        using Cons.prems(2) by auto
      then show ?thesis using small Cons.IH[OF r] by auto
    qed
  qed
qed

lemma SendRtcp_consumers_append:
  "SendRtcp_consumers ext now (pre @ rest) packet =
     (case SendRtcp_consumers ext now pre packet of
        (evs, None) \<Rightarrow> (evs, None)
      | (evs, Some acc) \<Rightarrow>
          (case SendRtcp_consumers ext now rest acc of (evs', result) \<Rightarrow> (evs @ evs', result)))"
  by (induction pre arbitrary: packet) (auto simp: Let_def split: prod.splits option.splits)

text \<open>
  C7. \<open>SendRtcp\<close> never emits a compound packet larger than \<open>BufferSize\<close>, and it emits
  the packets it has accumulated, whole. When the compound that is due after a consumer
  (it has a sender report) is larger than \<open>BufferSize\<close>, a warning is logged and
  \<open>SendRtcp\<close> returns: the events are those before that consumer followed by the
  warning, whatever consumers and producers come after. The same holds for the compound
  that is due after the producers (it has a receiver report). A later call starts from
  a fresh compound packet.
\<close>

theorem oversized_compound_dropped:
  "(\<forall>p. SendRtcpCompoundPacket p \<in> set (SendRtcp ext t now) \<longrightarrow> GetSize p \<le> BufferSize ext)
   \<and> (mapConsumers t = pre @ kv # post \<longrightarrow>
        SendRtcp_consumers ext now pre CompoundPacket_new = (evs, Some acc) \<longrightarrow>
        HasSenderReport (Consumer_GetRtcp ext (snd kv) acc now) \<longrightarrow>
        GetSize (Consumer_GetRtcp ext (snd kv) acc now) > BufferSize ext \<longrightarrow>
          SendRtcp ext t now =
            evs @ [MS_WARN_TAG ''cannot send RTCP packet, size too big (%zu bytes)''
                     [GetSize (Consumer_GetRtcp ext (snd kv) acc now)]])
   \<and> (SendRtcp_consumers ext now (mapConsumers t) CompoundPacket_new = (evs', Some acc') \<longrightarrow>
        GetReceiverReportCount
          (fold (\<lambda>producer packet. Producer_GetRtcp ext producer packet now)
             (producers ext) acc') \<noteq> 0 \<longrightarrow>
        GetSize
          (fold (\<lambda>producer packet. Producer_GetRtcp ext producer packet now)
             (producers ext) acc') > BufferSize ext \<longrightarrow>
          SendRtcp ext t now =
            evs' @ [MS_WARN_TAG ''cannot send RTCP packet, size too big (%zu bytes)''
                      [GetSize (fold (\<lambda>producer packet. Producer_GetRtcp ext producer packet now)
                                  (producers ext) acc')]])"
proof (intro conjI impI allI)
  fix p assume s: "SendRtcpCompoundPacket p \<in> set (SendRtcp ext t now)"
  obtain es r where c: "SendRtcp_consumers ext now (mapConsumers t) CompoundPacket_new = (es, r)"
    by (cases "SendRtcp_consumers ext now (mapConsumers t) CompoundPacket_new")
  show "GetSize p \<le> BufferSize ext"
  proof (cases r)
    case None
    then show ?thesis using s c SendRtcp_consumers_sent[OF c] by (simp add: SendRtcp_def)
  next
    case (Some packet)
    then show ?thesis using s c SendRtcp_consumers_sent[OF c]
      by (auto simp: SendRtcp_def Let_def split: if_splits)
  qed
next
  assume "mapConsumers t = pre @ kv # post"
    and "SendRtcp_consumers ext now pre CompoundPacket_new = (evs, Some acc)"
    and "HasSenderReport (Consumer_GetRtcp ext (snd kv) acc now)"
    and "GetSize (Consumer_GetRtcp ext (snd kv) acc now) > BufferSize ext"
  then show "SendRtcp ext t now =
            evs @ [MS_WARN_TAG ''cannot send RTCP packet, size too big (%zu bytes)''
                     [GetSize (Consumer_GetRtcp ext (snd kv) acc now)]]"
    by (simp add: SendRtcp_def SendRtcp_consumers_append Let_def)
next
  assume "SendRtcp_consumers ext now (mapConsumers t) CompoundPacket_new = (evs', Some acc')"
    and "GetReceiverReportCount
          (fold (\<lambda>producer packet. Producer_GetRtcp ext producer packet now)
             (producers ext) acc') \<noteq> 0"
    and "GetSize
          (fold (\<lambda>producer packet. Producer_GetRtcp ext producer packet now)
             (producers ext) acc') > BufferSize ext"
  then show "SendRtcp ext t now =
            evs' @ [MS_WARN_TAG ''cannot send RTCP packet, size too big (%zu bytes)''
                      [GetSize (fold (\<lambda>producer packet. Producer_GetRtcp ext producer packet now)
                                  (producers ext) acc')]]"
    by (simp add: SendRtcp_def Let_def)
qed

lemma consumer_kinds: "consumer_kind consumer_c1 = VIDEO" "consumer_kind consumer_c2 = AUDIO"
  "consumer_addr consumer_c1 = 2" "consumer_addr consumer_c2 = 3"
  by (simp_all add: consumer_c1_def consumer_c2_def)

lemma externals_E_simps:
  "BufferSize externals_E = 1000"
  "producers externals_E = [producer_p1]"
  "Consumer_GetRtcp externals_E consumer_c1 packet now =
     packet\<lparr>HasSenderReport := True, GetSize := GetSize packet + 600,
             content := content packet @ [2]\<rparr>"
  "Consumer_GetRtcp externals_E consumer_c2 packet now =
     packet\<lparr>GetSize := GetSize packet + 900, content := content packet @ [3]\<rparr>"
  "Producer_GetRtcp externals_E producer_p1 packet now =
     packet\<lparr>GetReceiverReportCount := GetReceiverReportCount packet + 1,
            GetSize := GetSize packet + 200, content := content packet @ [1]\<rparr>"
  by (simp_all add: externals_E_def consumer_kinds) (simp add: producer_p1_def)

lemma transport_B_consumers:
  "mapConsumers transport_B = [(''c2'', consumer_c2)] @ (''c1'', consumer_c1) # []"
  by (simp add: transport_B_def)

lemma transport_A_consumers:
  "mapConsumers transport_A = [(''c1'', consumer_c1), (''c2'', consumer_c2)]"
  by (simp add: transport_A_eq)

theorem oversized_compound_dropped_witness:
  "SendRtcp externals_E transport_B 5 =
     [MS_WARN_TAG ''cannot send RTCP packet, size too big (%zu bytes)'' [1500]]
   \<and> SendRtcp externals_E transport_A 5 =
     [Serialize \<lparr>HasSenderReport = True, GetReceiverReportCount = 0, GetSize = 600,
                 content = [2]\<rparr>,
      SendRtcpCompoundPacket \<lparr>HasSenderReport = True, GetReceiverReportCount = 0,
                 GetSize = 600, content = [2]\<rparr>,
      MS_WARN_TAG ''cannot send RTCP packet, size too big (%zu bytes)'' [1100]]
   \<and> GetSize \<lparr>HasSenderReport = True, GetReceiverReportCount = 0, GetSize = 600,
                content = [2]\<rparr> \<le> BufferSize externals_E"
proof -
  have pre: "SendRtcp_consumers externals_E 5 [(''c2'', consumer_c2)] CompoundPacket_new =
      ([], Some \<lparr>HasSenderReport = False, GetReceiverReportCount = 0, GetSize = 900,
                 content = [3]\<rparr>)"
    by (simp add: externals_E_simps CompoundPacket_new_def Let_def)
  have all: "SendRtcp_consumers externals_E 5 (mapConsumers transport_A) CompoundPacket_new =
      ([Serialize \<lparr>HasSenderReport = True, GetReceiverReportCount = 0, GetSize = 600,
                   content = [2]\<rparr>,
        SendRtcpCompoundPacket \<lparr>HasSenderReport = True, GetReceiverReportCount = 0,
                   GetSize = 600, content = [2]\<rparr>],
       Some \<lparr>HasSenderReport = False, GetReceiverReportCount = 0, GetSize = 900,
             content = [3]\<rparr>)"
    by (simp add: externals_E_simps CompoundPacket_new_def transport_A_consumers Let_def)
  have B: "SendRtcp externals_E transport_B 5 =
     [MS_WARN_TAG ''cannot send RTCP packet, size too big (%zu bytes)'' [1500]]"
    using oversized_compound_dropped [of externals_E transport_B 5 "[(''c2'', consumer_c2)]"
        "(''c1'', consumer_c1)" "[]" "[]"
        "\<lparr>HasSenderReport = False, GetReceiverReportCount = 0, GetSize = 900, content = [3]\<rparr>"
        "[]" CompoundPacket_new]
      transport_B_consumers pre
    by (simp add: externals_E_simps)
  have A: "SendRtcp externals_E transport_A 5 =
     [Serialize \<lparr>HasSenderReport = True, GetReceiverReportCount = 0, GetSize = 600,
                 content = [2]\<rparr>,
      SendRtcpCompoundPacket \<lparr>HasSenderReport = True, GetReceiverReportCount = 0,
                 GetSize = 600, content = [2]\<rparr>,
      MS_WARN_TAG ''cannot send RTCP packet, size too big (%zu bytes)'' [1100]]
    \<and> GetSize \<lparr>HasSenderReport = True, GetReceiverReportCount = 0, GetSize = 600,
                content = [2]\<rparr> \<le> BufferSize externals_E"
    using oversized_compound_dropped [of externals_E transport_A 5 "[]" "(''c1'', consumer_c1)"
        "[]" "[]" CompoundPacket_new
        "[Serialize \<lparr>HasSenderReport = True, GetReceiverReportCount = 0, GetSize = 600,
                   content = [2]\<rparr>,
          SendRtcpCompoundPacket \<lparr>HasSenderReport = True, GetReceiverReportCount = 0,
                   GetSize = 600, content = [2]\<rparr>]"
        "\<lparr>HasSenderReport = False, GetReceiverReportCount = 0, GetSize = 900, content = [3]\<rparr>"]
      all
    by (simp add: externals_E_simps)
  show ?thesis using A B by simp
qed

section \<open>Requests and packets that cannot be served\<close>

text \<open>
  The paths that reject a request or log a warning: under each exceptional condition
  of a request the answer is one reject and the transport is unchanged, and under each
  exceptional condition of a packet a warning is logged and the transport is unchanged.
\<close>

lemma HandleRequest_one_response:
  "\<exists>response. filter is_response (snd (HandleRequest consumer t request)) = [response]"
  by (cases "methodId request")
     (auto simp: HandleRequest_def Let_def split: option.splits sum.splits)

lemma HandleRequest_exceptional:
  "exceptional_request t request \<Longrightarrow>
   fst (HandleRequest consumer t request) = t \<and>
   (\<exists>reason. filter is_response (snd (HandleRequest consumer t request)) = [Reject reason]) \<and>
   Accept \<notin> set (snd (HandleRequest consumer t request))"
  by (cases "methodId request")
     (auto simp: HandleRequest_def exceptional_request_def Let_def
        split: option.splits sum.splits)

lemma ReceiverReport_loop_warns:
  "list_ex (\<lambda>r. GetStartedConsumer t (rr_GetSsrc r) = None) reports \<Longrightarrow>
   list_ex is_warning (ReceiverReport_loop t reports)"
  by (induction reports) (auto split: option.splits)

lemma SenderReport_loop_warns:
  "list_ex (\<lambda>r. GetProducer (rtpListener t) (sr_GetSsrc r) = None) reports \<Longrightarrow>
   list_ex is_warning (SenderReport_loop t reports)"
  by (induction reports) (auto split: option.splits)

lemma Sdes_loop_warns:
  "list_ex (\<lambda>c. GetProducer (rtpListener t) (chunk_GetSsrc c) = None) chunks \<Longrightarrow>
   list_ex is_warning (Sdes_loop t chunks)"
  by (induction chunks) (auto split: option.splits)

lemma ReceiveRtcpPacket_exceptional:
  "exceptional_packet t packet \<Longrightarrow>
   fst (ReceiveRtcpPacket t packet) = t \<and> list_ex is_warning (snd (ReceiveRtcpPacket t packet))"
proof (cases packet)
  case (RR reports)
  assume "exceptional_packet t packet"
  then show ?thesis using RR ReceiverReport_loop_warns
    by (simp add: exceptional_packet_def ReceiveRtcpPacket_def)
next
  case (PSFB feedback)
  assume "exceptional_packet t packet"
  then show ?thesis using PSFB
    by (cases "ps_GetMessageType feedback")
       (auto simp: exceptional_packet_def ReceiveRtcpPacket_def)
next
  case (RTPFB feedback)
  assume "exceptional_packet t packet"
  then show ?thesis using RTPFB
    by (cases "rtp_GetMessageType feedback")
       (auto simp: exceptional_packet_def ReceiveRtcpPacket_def split: option.splits)
next
  case (SR reports)
  assume "exceptional_packet t packet"
  then show ?thesis using SR SenderReport_loop_warns
    by (simp add: exceptional_packet_def ReceiveRtcpPacket_def)
next
  case (SDES chunks)
  assume "exceptional_packet t packet"
  then show ?thesis using SDES Sdes_loop_warns
    by (simp add: exceptional_packet_def ReceiveRtcpPacket_def)
next
  case BYE
  assume "exceptional_packet t packet"
  then show ?thesis using BYE by (simp add: exceptional_packet_def)
next
  case (OTHER_TYPE ty)
  then show ?thesis by (simp add: ReceiveRtcpPacket_def)
qed

section \<open>Registering a consumer\<close>

lemma HandleConsumer_inserts:
  "map_of (mapConsumers (fst (HandleConsumer t isConnected consumer))) (consumer_id consumer) =
     Some consumer"
  by (simp add: HandleConsumer_def update_conv')

lemma HandleConsumer_events:
  "RequestKeyFrame consumer \<in> set (snd (HandleConsumer t isConnected consumer)) \<longleftrightarrow> isConnected"
  "OnTransportConsumerKeyFrameRequested c \<notin> set (snd (HandleConsumer t isConnected consumer))"
  by (auto simp: HandleConsumer_def)

text \<open>
  C6, evaluated on the code. On a connected transport \<open>HandleConsumer\<close> inserts the video
  consumer \<open>c1\<close> and calls \<open>RequestKeyFrame\<close> on the consumer itself; the listener's
  \<open>OnTransportConsumerKeyFrameRequested\<close> is not called. For the audio consumer \<open>c2\<close> it
  calls \<open>RequestKeyFrame\<close> as well: the kind decides only whether the debug line is
  written.
\<close>

theorem HandleConsumer_requests_directly:
  "HandleConsumer Transport_new True consumer_c1 =
     (Transport_new\<lparr>mapConsumers := [(''c1'', consumer_c1)]\<rparr>,
      [MS_DEBUG_2TAGS
         ''requesting key frame for new Consumer since Transport already connected'' [],
       RequestKeyFrame consumer_c1])
   \<and> OnTransportConsumerKeyFrameRequested consumer_c1
        \<notin> set (snd (HandleConsumer Transport_new True consumer_c1))
   \<and> consumer_kind consumer_c2 = AUDIO
   \<and> HandleConsumer Transport_new True consumer_c2 =
     (Transport_new\<lparr>mapConsumers := [(''c2'', consumer_c2)]\<rparr>, [RequestKeyFrame consumer_c2])"
  by (simp add: HandleConsumer_def Transport_new_def consumer_c1_def consumer_c2_def)

section \<open>Closing a consumer\<close>

lemma consumer_close_reject:
  "methodId request = CONSUMER_CLOSE \<Longrightarrow> GetConsumerFromRequest t request = Inl e \<Longrightarrow>
   HandleRequest consumer t request = (t, [Reject (what e)])"
  by (simp add: HandleRequest_def)

lemma consumer_close_accept:
  "methodId request = CONSUMER_CLOSE \<Longrightarrow> GetConsumerFromRequest t request = Inr c \<Longrightarrow>
   HandleRequest consumer t request =
     (t\<lparr>mapConsumers := AList.delete (consumer_id consumer) (mapConsumers t)\<rparr>,
      [OnTransportConsumerClosed consumer, Delete_Consumer consumer, Accept])"
  by (simp add: HandleRequest_def)

text \<open>
  C8, evaluated on the code. The handler looks the consumer up into the local variable
  \<^verbatim>\<open>producer\<close> and then works on \<^verbatim>\<open>consumer\<close>. With \<^verbatim>\<open>consumer\<close> denoting \<open>c2\<close>, a request
  to close \<open>c1\<close> is accepted, \<open>c2\<close> is erased, reported and deleted, and \<open>c1\<close> stays in
  the consumers map.
\<close>

theorem consumer_close_uses_other_name:
  "map_of (mapConsumers transport_A) ''c1'' = Some consumer_c1
   \<and> HandleRequest consumer_c2 transport_A (consumer_close_request (J_string ''c1'')) =
       (transport_A\<lparr>mapConsumers := [(''c1'', consumer_c1)]\<rparr>,
        [OnTransportConsumerClosed consumer_c2, Delete_Consumer consumer_c2, Accept])
   \<and> map_of (mapConsumers (fst (HandleRequest consumer_c2 transport_A
         (consumer_close_request (J_string ''c1''))))) ''c1'' = Some consumer_c1"
  by (simp add: HandleRequest_def GetConsumerFromRequest_def transport_A_eq
      consumer_close_request_def consumer_c2_def)

lemma consumers_distinct:
  "consumer_c1 \<noteq> consumer_c2" "consumer_c2 \<noteq> consumer_c1"
  "consumer_c3 \<noteq> consumer_c1" "consumer_c3 \<noteq> consumer_c2"
  "consumer_id consumer_c1 = ''c1''" "consumer_id consumer_c2 = ''c2''"
  "consumer_id consumer_c3 = ''c3''"
  by (simp_all add: consumer_c1_def consumer_c2_def consumer_c3_def)

lemma close_c1_request:
  "methodId (consumer_close_request (J_string ''c1'')) = CONSUMER_CLOSE"
  "GetConsumerFromRequest transport_A (consumer_close_request (J_string ''c1'')) = Inr consumer_c1"
  "GetConsumerFromRequest (transport_A\<lparr>mapConsumers := [(''c1'', consumer_c1)]\<rparr>)
     (consumer_close_request (J_string ''c1'')) = Inr consumer_c1"
  by (simp_all add: consumer_close_request_def GetConsumerFromRequest_def transport_A_eq)

lemma live_A: "map snd (mapConsumers transport_A) = [consumer_c1, consumer_c2]"
  by (simp add: transport_A_eq)

text \<open>
  C9, evaluated on the code. The accepting path of \<^verbatim>\<open>CONSUMER_CLOSE\<close> does not return
  normally in general. On the transport with the consumers \<open>c1\<close> and \<open>c2\<close>, with
  \<^verbatim>\<open>consumer\<close> denoting \<open>c2\<close>, a request to close \<open>c1\<close> deletes \<open>c2\<close> and leaves \<open>c1\<close> in the
  map; the same request sent again finds \<open>c1\<close> again and reports and deletes the already
  deleted \<open>c2\<close>. With \<^verbatim>\<open>consumer\<close> denoting an object the transport never owned, the
  first request already uses it. Both answers are \<open>Accept\<close>; the events use a consumer
  that is not alive.
\<close>

theorem consumer_close_dangling:
  "HandleRequest consumer_c2 transport_A (consumer_close_request (J_string ''c1'')) =
     (transport_A\<lparr>mapConsumers := [(''c1'', consumer_c1)]\<rparr>,
      [OnTransportConsumerClosed consumer_c2, Delete_Consumer consumer_c2, Accept])
   \<and> HandleRequest consumer_c2 (transport_A\<lparr>mapConsumers := [(''c1'', consumer_c1)]\<rparr>)
       (consumer_close_request (J_string ''c1'')) =
     (transport_A\<lparr>mapConsumers := [(''c1'', consumer_c1)]\<rparr>,
      [OnTransportConsumerClosed consumer_c2, Delete_Consumer consumer_c2, Accept])
   \<and> dangling_use (map snd (mapConsumers transport_A))
       (snd (HandleRequest consumer_c2 transport_A (consumer_close_request (J_string ''c1'')))
        @ snd (HandleRequest consumer_c2 (transport_A\<lparr>mapConsumers := [(''c1'', consumer_c1)]\<rparr>)
            (consumer_close_request (J_string ''c1''))))
   \<and> dangling_use (map snd (mapConsumers transport_A))
       (snd (HandleRequest consumer_c3 transport_A (consumer_close_request (J_string ''c1''))))"
proof -
  have A: "mapConsumers transport_A = [(''c1'', consumer_c1), (''c2'', consumer_c2)]"
    by (simp add: transport_A_eq)
  have r1: "HandleRequest consumer_c2 transport_A (consumer_close_request (J_string ''c1'')) =
     (transport_A\<lparr>mapConsumers := [(''c1'', consumer_c1)]\<rparr>,
      [OnTransportConsumerClosed consumer_c2, Delete_Consumer consumer_c2, Accept])"
    by (simp add: consumer_close_accept[OF close_c1_request(1,2)] A consumers_distinct)
  have r2: "HandleRequest consumer_c2 (transport_A\<lparr>mapConsumers := [(''c1'', consumer_c1)]\<rparr>)
       (consumer_close_request (J_string ''c1'')) =
     (transport_A\<lparr>mapConsumers := [(''c1'', consumer_c1)]\<rparr>,
      [OnTransportConsumerClosed consumer_c2, Delete_Consumer consumer_c2, Accept])"
    by (simp add: consumer_close_accept[OF close_c1_request(1,3)] consumers_distinct)
  have r3: "snd (HandleRequest consumer_c3 transport_A (consumer_close_request (J_string ''c1'')))
      = [OnTransportConsumerClosed consumer_c3, Delete_Consumer consumer_c3, Accept]"
    by (simp add: consumer_close_accept[OF close_c1_request(1,2)])
  show ?thesis
    unfolding r1 r2 r3 live_A
    by (simp add: consumers_distinct)
qed

text \<open>
  On this transport every binding of \<^verbatim>\<open>consumer\<close> other than the looked-up consumer
  itself leads to such a use within two requests, and the looked-up consumer does not.
\<close>

lemma consumer_close_other_binding:
  assumes "x \<noteq> consumer_c1"
  shows "dangling_use (map snd (mapConsumers transport_A))
       (snd (HandleRequest x transport_A (consumer_close_request (J_string ''c1'')))
        @ snd (HandleRequest x (fst (HandleRequest x transport_A
                 (consumer_close_request (J_string ''c1''))))
            (consumer_close_request (J_string ''c1''))))"
proof (cases "x = consumer_c2")
  case True
  show ?thesis
    using consumer_close_dangling unfolding True by simp
next
  case False
  have "snd (HandleRequest x transport_A (consumer_close_request (J_string ''c1'')))
      = [OnTransportConsumerClosed x, Delete_Consumer x, Accept]"
    by (simp add: consumer_close_accept[OF close_c1_request(1,2)])
  then show ?thesis
    using False assms unfolding live_A by simp
qed

lemma consumer_close_intended:
  "\<not> dangling_use (map snd (mapConsumers transport_A))
       (snd (HandleRequest consumer_c1 transport_A (consumer_close_request (J_string ''c1''))))"
proof -
  have "snd (HandleRequest consumer_c1 transport_A (consumer_close_request (J_string ''c1'')))
      = [OnTransportConsumerClosed consumer_c1, Delete_Consumer consumer_c1, Accept]"
    by (simp add: consumer_close_accept[OF close_c1_request(1,2)])
  then show ?thesis unfolding live_A by simp
qed

section \<open>Rounding to single precision\<close>

lemma bits_bounds: "0 < n \<Longrightarrow> 2 ^ (bits n - 1) \<le> n \<and> n < 2 ^ bits n"
proof (induction n rule: bits.induct)
  case (1 n)
  show ?case
  proof (cases "n div 2 = 0")
    case True
    with 1 have "n = 1" by (simp add: div_eq_0_iff)
    then show ?thesis by (simp add: bits.simps)
  next
    case False
    then have h: "2 ^ (bits (n div 2) - 1) \<le> n div 2" "n div 2 < 2 ^ bits (n div 2)"
      using 1 by simp_all
    have b: "bits n = Suc (bits (n div 2))" using 1 by (subst bits.simps) simp
    have "2 * 2 ^ (bits (n div 2) - 1) \<le> 2 * (n div 2)" using h(1) by simp
    then have lo: "2 ^ (bits n - 1) \<le> n"
      using b False by (cases "bits (n div 2)") (auto simp: bits.simps[of "n div 2"])
    have "Suc (n div 2) \<le> 2 ^ bits (n div 2)" using h(2) by simp
    then have "2 * Suc (n div 2) \<le> 2 * 2 ^ bits (n div 2)" by (rule mult_le_mono2)
    moreover have "n < 2 * Suc (n div 2)" by arith
    ultimately have hi: "n < 2 ^ bits n" using b by simp
    show ?thesis using lo hi by simp
  qed
qed

lemma pow2_powr: "pow2 k = 2 powr (of_int k)"
proof (cases "0 \<le> k")
  case True
  then show ?thesis by (simp add: pow2_def powr_realpow[symmetric])
next
  case False
  then have r: "real (nat (- k)) = - of_int k" by simp
  have "(2::real) powr (real (nat (- k))) = 2 ^ nat (- k)"
    by (rule powr_realpow) simp
  then have "(2::real) ^ nat (- k) = 2 powr (- of_int k)" using r by simp
  then show ?thesis using False by (simp add: pow2_def powr_minus_divide)
qed

lemma pow2_pos: "0 < pow2 k"
  by (simp add: pow2_powr)

lemma pow2_add: "pow2 (a + b) = pow2 a * pow2 b"
  by (simp add: pow2_powr powr_add)

lemma pow2_mono: "a \<le> b \<Longrightarrow> pow2 a \<le> pow2 b"
  by (simp add: pow2_powr)

lemma pow2_less: "pow2 a < pow2 b \<Longrightarrow> a < b"
  by (simp add: pow2_powr)

lemma pow2_nat: "pow2 (int n) = 2 ^ n"
  by (simp add: pow2_def)

lemma pow2_neg_nat: "pow2 (- int m) = 1 / 2 ^ m"
proof (cases m)
  case 0
  then show ?thesis by (simp add: pow2_def)
next
  case (Suc l)
  then have "nat (int m) = m" "\<not> 0 \<le> - int m" by simp_all
  then show ?thesis unfolding pow2_def by (simp only: if_False minus_minus)
qed

lemma f32_exponent_bounds:
  assumes "0 < x"
  shows "pow2 (f32_exponent x) \<le> x" and "x < pow2 (f32_exponent x + 1)"
proof -
  have "pow2 (f32_exponent x) \<le> x \<and> x < pow2 (f32_exponent x + 1)"
  proof (cases "1 \<le> x")
    case True
    define n where "n = nat \<lfloor>x\<rfloor>"
    have n: "0 < n" "real n \<le> x" "x < real n + 1"
      using True by (auto simp: n_def)
    have e: "f32_exponent x = int (bits n) - 1" using True by (simp add: f32_exponent_def n_def)
    have b: "2 ^ (bits n - 1) \<le> n" "n < 2 ^ bits n" using bits_bounds[OF n(1)] by auto
    have bp: "0 < bits n" using n(1) by (subst bits.simps) simp
    then have e': "f32_exponent x = int (bits n - 1)" using e by simp
    have "(2::real) ^ (bits n - 1) \<le> real n"
      using b(1) by (metis of_nat_le_iff of_nat_numeral of_nat_power)
    then have lo: "pow2 (f32_exponent x) \<le> x" using n(2) unfolding e' pow2_nat by linarith
    have "Suc n \<le> 2 ^ bits n" using b(2) by simp
    then have "real (Suc n) \<le> (2::real) ^ bits n"
      by (metis of_nat_le_iff of_nat_numeral of_nat_power)
    then have "x < 2 ^ bits n" using n(3) by simp
    moreover have "f32_exponent x + 1 = int (bits n)" using e by simp
    ultimately have hi: "x < pow2 (f32_exponent x + 1)" by (simp add: pow2_nat)
    show ?thesis using lo hi by simp
  next
    case False
    define y where "y = 1 / x"
    have y: "1 < y" using False assms by (simp add: y_def)
    define n where "n = nat (\<lceil>y\<rceil> - 1)"
    have c: "real_of_int \<lceil>y\<rceil> - 1 < y" "y \<le> real_of_int \<lceil>y\<rceil>" by linarith+
    have "2 \<le> \<lceil>y\<rceil>" using y by linarith
    then have n: "0 < n" "real n = real_of_int \<lceil>y\<rceil> - 1" by (auto simp: n_def)
    have ny: "real n < y" "y \<le> real n + 1" using c n(2) by auto
    have e: "f32_exponent x = - int (bits n)"
      using False by (simp add: f32_exponent_def n_def y_def)
    have b: "2 ^ (bits n - 1) \<le> n" "n < 2 ^ bits n" using bits_bounds[OF n(1)] by auto
    have bp: "0 < bits n" using n(1) by (subst bits.simps) simp
    have "Suc n \<le> 2 ^ bits n" using b(2) by simp
    then have "real (Suc n) \<le> (2::real) ^ bits n"
      by (metis of_nat_le_iff of_nat_numeral of_nat_power)
    then have yu: "y \<le> 2 ^ bits n" using ny(2) by simp
    have "(2::real) ^ (bits n - 1) \<le> real n"
      using b(1) by (metis of_nat_le_iff of_nat_numeral of_nat_power)
    then have yl: "2 ^ (bits n - 1) < y" using ny(1) by linarith
    have x: "x = 1 / y" using assms by (simp add: y_def)
    have "pow2 (f32_exponent x) = 1 / 2 ^ bits n"
      unfolding e by (rule pow2_neg_nat)
    also have "\<dots> \<le> 1 / y" using yu y by (simp add: frac_le)
    finally have lo: "pow2 (f32_exponent x) \<le> x" using x by simp
    have "f32_exponent x + 1 = - int (bits n - 1)" using e bp by simp
    then have "pow2 (f32_exponent x + 1) = 1 / 2 ^ (bits n - 1)"
      by (simp only: pow2_neg_nat)
    moreover have "1 / y < 1 / 2 ^ (bits n - 1)" using yl by (simp add: frac_less2)
    ultimately have hi: "x < pow2 (f32_exponent x + 1)" using x by simp
    show ?thesis using lo hi by simp
  qed
  then show "pow2 (f32_exponent x) \<le> x" and "x < pow2 (f32_exponent x + 1)" by auto
qed

lemma rne_bounds: "\<lfloor>y\<rfloor> \<le> rne y" "rne y \<le> \<lceil>y\<rceil>"
proof -
  show "\<lfloor>y\<rfloor> \<le> rne y" by (simp add: rne_def Let_def)
  have "y - of_int \<lfloor>y\<rfloor> \<noteq> 0 \<Longrightarrow> \<lfloor>y\<rfloor> + 1 \<le> \<lceil>y\<rceil>"
    by (metis ceiling_altdef eq_iff_diff_eq_0 order_refl)
  moreover have "y - of_int \<lfloor>y\<rfloor> = 0 \<Longrightarrow> rne y = \<lfloor>y\<rfloor>" by (simp add: rne_def Let_def)
  moreover have "rne y \<le> \<lfloor>y\<rfloor> + 1" by (simp add: rne_def Let_def)
  moreover have "\<lfloor>y\<rfloor> \<le> \<lceil>y\<rceil>" by (simp add: floor_le_ceiling)
  ultimately show "rne y \<le> \<lceil>y\<rceil>" by fastforce
qed

lemma rne_ge: "of_int z \<le> y \<Longrightarrow> z \<le> rne y"
  using rne_bounds(1)[of y] by (meson le_floor_iff order_trans)

lemma rne_le: "y \<le> of_int z \<Longrightarrow> rne y \<le> z"
  using rne_bounds(2)[of y] by (meson ceiling_le_iff order_trans)

text \<open>A value k * 2^j with k < 2^24 that lies at or above 2^e is a multiple of 2^(e-23).\<close>

lemma representable_multiple:
  assumes "k < 2 ^ 24" "pow2 e \<le> real k * pow2 j"
  shows "\<exists>z::int. real k * pow2 j = of_int z * pow2 (e - 23)"
proof -
  have "pow2 e < 2 ^ 24 * pow2 j"
  proof -
    have "real k < 2 ^ 24" using assms(1) by (metis of_nat_less_iff of_nat_numeral of_nat_power)
    then have "real k * pow2 j < 2 ^ 24 * pow2 j" using pow2_pos[of j] by simp
    then show ?thesis using assms(2) by simp
  qed
  also have "\<dots> = pow2 (24 + j)" using pow2_nat[of 24] by (simp add: pow2_add)
  finally have "e < 24 + j" by (rule pow2_less)
  then have d: "0 \<le> j - (e - 23)" by simp
  have "pow2 j = pow2 ((j - (e - 23)) + (e - 23))" by simp
  also have "\<dots> = pow2 (j - (e - 23)) * pow2 (e - 23)" by (rule pow2_add)
  also have "pow2 (j - (e - 23)) = 2 ^ nat (j - (e - 23))" using d by (simp add: pow2_def)
  finally have "real k * pow2 j = of_int (int k * 2 ^ nat (j - (e - 23))) * pow2 (e - 23)"
    by simp
  then show ?thesis by blast
qed

lemma f32_round_pos_eq:
  "0 < x \<Longrightarrow> f32_round x = of_int (rne (x / pow2 (f32_exponent x - 23))) * pow2 (f32_exponent x - 23)"
  by (simp add: f32_round_def Let_def)

lemma f32_round_binade:
  assumes "0 < x"
  shows "pow2 (f32_exponent x) \<le> f32_round x" and "f32_round x \<le> pow2 (f32_exponent x + 1)"
proof -
  let ?e = "f32_exponent x"
  let ?u = "pow2 (?e - 23)"
  have u: "0 < ?u" by (rule pow2_pos)
  have "pow2 ?e = pow2 (23 + (?e - 23))" by (rule arg_cong[where f=pow2]) simp
  then have "pow2 ?e = pow2 23 * ?u" by (simp only: pow2_add)
  then have lo: "pow2 ?e = of_int (2 ^ 23) * ?u" using pow2_nat[of 23] by simp
  have "pow2 (?e + 1) = pow2 (24 + (?e - 23))" by (rule arg_cong[where f=pow2]) simp
  then have "pow2 (?e + 1) = pow2 24 * ?u" by (simp only: pow2_add)
  then have hi: "pow2 (?e + 1) = of_int (2 ^ 24) * ?u" using pow2_nat[of 24] by simp
  have "of_int (2 ^ 23) \<le> x / ?u"
    using f32_exponent_bounds(1)[OF assms] u unfolding lo by (simp add: pos_le_divide_eq)
  then have "2 ^ 23 \<le> rne (x / ?u)" by (rule rne_ge)
  then have "of_int (2 ^ 23) * ?u \<le> of_int (rne (x / ?u)) * ?u"
    using u by (simp del: of_int_numeral of_int_power)
  then show "pow2 ?e \<le> f32_round x"
    unfolding f32_round_pos_eq[OF assms] lo .
  have "x / ?u \<le> of_int (2 ^ 24)"
    using f32_exponent_bounds(2)[OF assms] u unfolding hi by (simp add: pos_divide_le_eq)
  then have "rne (x / ?u) \<le> 2 ^ 24" by (rule rne_le)
  then have "of_int (rne (x / ?u)) * ?u \<le> of_int (2 ^ 24) * ?u"
    using u by (simp del: of_int_numeral of_int_power)
  then show "f32_round x \<le> pow2 (?e + 1)"
    unfolding f32_round_pos_eq[OF assms] hi .
qed

lemma f32_round_ge:
  assumes "k < 2 ^ 24" "c = real k * pow2 j" "c \<le> x" "0 < x"
  shows "c \<le> f32_round x"
proof (cases "c \<le> pow2 (f32_exponent x)")
  case True
  then show ?thesis using f32_round_binade(1)[OF assms(4)] by simp
next
  case False
  let ?u = "pow2 (f32_exponent x - 23)"
  have u: "0 < ?u" by (rule pow2_pos)
  from False have "pow2 (f32_exponent x) \<le> real k * pow2 j" using assms(2) by simp
  from representable_multiple[OF assms(1) this]
  obtain z :: int where z: "c = of_int z * ?u" using assms(2) by auto
  then have "of_int z \<le> x / ?u" using assms(3) u by (simp add: pos_le_divide_eq)
  then have "z \<le> rne (x / ?u)" by (rule rne_ge)
  then have "of_int z * ?u \<le> of_int (rne (x / ?u)) * ?u" using u by simp
  then show ?thesis unfolding f32_round_pos_eq[OF assms(4)] z .
qed

lemma f32_round_le:
  assumes "k < 2 ^ 24" "c = real k * pow2 j" "x \<le> c"
  shows "f32_round x \<le> c"
proof (cases "0 < x")
  case False
  then have "f32_round x = 0" by (simp add: f32_round_def)
  moreover have "0 \<le> c" using assms(2) pow2_pos[of j] by simp
  ultimately show ?thesis by simp
next
  case True
  show ?thesis
  proof (cases "pow2 (f32_exponent x + 1) \<le> c")
    case True
    then show ?thesis using f32_round_binade(2)[OF \<open>0 < x\<close>] by simp
  next
    case False
    let ?u = "pow2 (f32_exponent x - 23)"
    have u: "0 < ?u" by (rule pow2_pos)
    have "pow2 (f32_exponent x) \<le> c"
      using f32_exponent_bounds(1)[OF \<open>0 < x\<close>] assms(3) by simp
    then have "pow2 (f32_exponent x) \<le> real k * pow2 j" using assms(2) by simp
    from representable_multiple[OF assms(1) this]
    obtain z :: int where z: "c = of_int z * ?u" using assms(2) by auto
    then have "x / ?u \<le> of_int z" using assms(3) u by (simp add: pos_divide_le_eq)
    then have "rne (x / ?u) \<le> z" by (rule rne_le)
    then have "of_int (rne (x / ?u)) * ?u \<le> of_int z * ?u" using u by simp
    then show ?thesis unfolding f32_round_pos_eq[OF \<open>0 < x\<close>] z .
  qed
qed

lemma f32_round_exact:
  assumes "k < 2 ^ 24"
  shows "f32_round (real k * pow2 j) = real k * pow2 j"
proof (cases "k = 0")
  case True
  then show ?thesis by (simp add: f32_round_def)
next
  case False
  then have p: "0 < real k * pow2 j" using pow2_pos[of j] by simp
  show ?thesis
    using f32_round_ge[OF assms refl order_refl p]
      f32_round_le[where k=k and j=j and c="real k * pow2 j" and x="real k * pow2 j"] assms
    by simp
qed

section \<open>The next RTCP interval\<close>

lemma pow2_simps: "pow2 0 = 1" "pow2 (- 1) = 1 / 2"
  by (simp_all add: pow2_def)

lemma f32_round_nat: "n < 2 ^ 24 \<Longrightarrow> f32_round (real n) = real n"
  using f32_round_exact[of n 0] by (simp add: pow2_simps)

lemma f32_round_10: "f32_round 10 = 10"
  using f32_round_nat[of 10] by simp

lemma factor_bounds:
  assumes "5 \<le> r" "r \<le> 15"
  shows "1 / 2 \<le> f32_round (real r / 10)" and "f32_round (real r / 10) \<le> 3 / 2"
proof -
  have "(1::real) / 2 = real 1 * pow2 (- 1)" by (simp add: pow2_simps)
  moreover have "(1::real) / 2 \<le> real r / 10" "0 < real r / 10" using assms(1) by simp_all
  ultimately show "1 / 2 \<le> f32_round (real r / 10)"
    using f32_round_ge[of 1 "1 / 2" "- 1" "real r / 10"] by simp
  have "(3::real) / 2 = real 3 * pow2 (- 1)" by (simp add: pow2_simps)
  moreover have "real r / 10 \<le> 3 / 2" using assms(2) by simp
  ultimately show "f32_round (real r / 10) \<le> 3 / 2"
    using f32_round_le[of 3 "3 / 2" "- 1" "real r / 10"] by simp
qed

lemma product_bounds:
  assumes "b \<le> M" "3 * M < 2 ^ 24" "1 / 2 \<le> f" "f \<le> 3 / 2"
  shows "real b / 2 \<le> f32_round (real b * f)" and "f32_round (real b * f) \<le> real (3 * M) / 2"
proof -
  have b: "b < 2 ^ 24" using assms(1,2) by simp
  have c1: "real b / 2 = real b * pow2 (- 1)" by (simp add: pow2_simps)
  have "real b * (1 / 2) \<le> real b * f" using assms(3) by (intro mult_left_mono) simp_all
  then have l: "real b / 2 \<le> real b * f" by simp
  show "real b / 2 \<le> f32_round (real b * f)"
  proof (cases "b = 0")
    case True
    then show ?thesis by (simp add: f32_round_def)
  next
    case False
    then have "0 < real b * f" using assms(3) by simp
    then show ?thesis using f32_round_ge[OF b c1 l] by simp
  qed
  have c2: "real (3 * M) / 2 = real (3 * M) * pow2 (- 1)" by (simp add: pow2_simps)
  have "real b * f \<le> real M * (3 / 2)"
    using assms(1,3,4) by (intro mult_mono) simp_all
  then have u: "real b * f \<le> real (3 * M) / 2" by simp
  show "f32_round (real b * f) \<le> real (3 * M) / 2"
    using f32_round_le[OF assms(2) c2 u] .
qed

lemma randomizedInterval_bounds:
  assumes "unat interval \<le> M" "3 * M < 2 ^ 24" "5 \<le> unat random" "unat random \<le> 15"
  shows "unat interval div 2 \<le> unat (randomizedInterval interval random)"
    and "2 * unat (randomizedInterval interval random) \<le> 3 * M"
proof -
  let ?b = "unat interval" and ?r = "unat random"
  let ?f = "f32_round (real ?r / 10)"
  let ?y = "f32_round (real ?b * ?f)"
  have b: "?b < 2 ^ 24" using assms(1,2) by simp
  have r: "?r < 2 ^ 24" using assms(4) by simp
  have y: "randomizedInterval interval random = word_of_nat (nat \<lfloor>?y\<rfloor>)"
    unfolding randomizedInterval_def uint64_of_f32_def f32_mul_def f32_div_def
      f32_of_uint64_def f32_of_uint32_def f32_round_nat[OF b] f32_round_nat[OF r] f32_round_10
    by (rule refl)
  have f: "1 / 2 \<le> ?f" "?f \<le> 3 / 2" using factor_bounds[OF assms(3,4)] by auto
  have p: "real ?b / 2 \<le> ?y" "?y \<le> real (3 * M) / 2"
    using product_bounds[OF assms(1,2) f] by auto
  have lo: "?b div 2 \<le> nat \<lfloor>?y\<rfloor>"
  proof -
    have "2 * (?b div 2) \<le> ?b" by simp
    then have "real (2 * (?b div 2)) \<le> real ?b" using of_nat_le_iff by blast
    then have "real (?b div 2) \<le> real ?b / 2" by simp
    then have "real (?b div 2) \<le> ?y" using p(1) by linarith
    then have "int (?b div 2) \<le> \<lfloor>?y\<rfloor>" by (simp add: le_floor_iff)
    then show ?thesis by linarith
  qed
  have hi: "2 * nat \<lfloor>?y\<rfloor> \<le> 3 * M"
  proof -
    have "0 \<le> ?y" using p(1) by (meson divide_nonneg_nonneg of_nat_0_le_iff order_trans zero_le_numeral)
    then have "real (nat \<lfloor>?y\<rfloor>) \<le> ?y" by simp
    then have "2 * real (nat \<lfloor>?y\<rfloor>) \<le> real (3 * M)" using p(2) by linarith
    then have "real (2 * nat \<lfloor>?y\<rfloor>) \<le> real (3 * M)" by simp
    then show ?thesis using of_nat_le_iff by blast
  qed
  have "nat \<lfloor>?y\<rfloor> < 2 ^ 64" using hi assms(2) by simp
  then have u: "unat (word_of_nat (nat \<lfloor>?y\<rfloor>) :: uint64) = nat \<lfloor>?y\<rfloor>"
    by (simp add: unat_of_nat take_bit_nat_eq_self)
  show "unat interval div 2 \<le> unat (randomizedInterval interval random)"
    using lo unfolding y u .
  show "2 * unat (randomizedInterval interval random) \<le> 3 * M"
    using hi unfolding y u .
qed

lemma recalculatedInterval_le:
  "unat (recalculatedInterval ext t now) \<le> unat (MaxVideoIntervalMs ext)"
  by (auto simp: recalculatedInterval_def Let_def word_le_nat_alt word_less_nat_alt not_less)

lemma unat_fold_rate:
  "unat (fold (\<lambda>kv rate. rate + (g kv :: uint32) div 1000) kvs acc) =
     (unat acc + sum_list (map (\<lambda>kv. unat (g kv) div 1000) kvs)) mod 2 ^ 32"
proof (induction kvs arbitrary: acc)
  case Nil
  have "unat acc < 2 ^ 32" using unsigned_less[of acc] by simp
  then show ?case by simp
next
  case (Cons kv kvs)
  have "unat (acc + g kv div 1000) = (unat acc + unat (g kv) div 1000) mod 2 ^ 32"
    by (simp add: unat_word_ariths unat_div mod_add_right_eq)
  then show ?case
    using Cons.IH[of "acc + g kv div 1000"]
    by (simp add: mod_add_left_eq add.assoc)
qed

lemma unat_transmissionRate:
  "unat (transmissionRate ext t now) =
     sum_list (map (\<lambda>kv. unat (Consumer_GetTransmissionRate ext (snd kv) now) div 1000)
       (mapConsumers t)) mod 2 ^ 32"
  unfolding transmissionRate_def
  using unat_fold_rate[of "\<lambda>kv. Consumer_GetTransmissionRate ext (snd kv) now" "mapConsumers t" 0]
  by simp

lemma recalculatedInterval_cases:
  "recalculatedInterval ext t now =
     (if mapConsumers t = [] \<or> transmissionRate ext t now = 0 then MaxVideoIntervalMs ext
      else min (ucast ((360000 :: uint32) div transmissionRate ext t now)) (MaxVideoIntervalMs ext))"
  by (auto simp: recalculatedInterval_def Let_def min_def not_less)

lemma transport_C_eq:
  "transport_C = Transport_new\<lparr>mapConsumers := [(''c1'', consumer_c1)]\<rparr>"
  by (simp add: transport_C_def run_def HandleConsumer_def Transport_new_def)
     (simp add: consumer_c1_def)

lemma externals_E_rate:
  "MaxVideoIntervalMs externals_E = 1000"
  "Consumer_GetTransmissionRate externals_E consumer now = 361000"
  by (simp_all add: externals_E_def)

lemma recalculatedInterval_C: "recalculatedInterval externals_E transport_C 0 = 997"
  by (simp add: recalculatedInterval_def transmissionRate_def transport_C_eq externals_E_rate
      Let_def)

lemma randomizedInterval_997_5: "randomizedInterval 997 5 = 498"
proof -
  have h: "f32_round (1 / 2) = 1 / 2" using f32_round_exact[of 1 "- 1"] by (simp add: pow2_simps)
  have p: "f32_round (997 / 2) = 997 / 2"
    using f32_round_exact[of 997 "- 1"] by (simp add: pow2_simps)
  have "randomizedInterval 997 5 = word_of_nat (nat \<lfloor>f32_round (997 * f32_round (5 / 10))\<rfloor>)"
    using f32_round_nat[of 997] f32_round_nat[of 5]
    by (simp add: randomizedInterval_def uint64_of_f32_def f32_mul_def f32_div_def
        f32_of_uint64_def f32_of_uint32_def f32_round_10)
  then show ?thesis using h p by simp
qed

lemma transmissionRate_C: "transmissionRate externals_E transport_C 0 = 361"
  by (simp add: transmissionRate_def transport_C_eq externals_E_rate)

lemma randomizedInterval_value:
  assumes "unat interval < 2 ^ 24" "unat random < 2 ^ 24"
  shows "randomizedInterval interval random =
     word_of_nat (nat \<lfloor>f32_round (real (unat interval) * f32_round (real (unat random) / 10))\<rfloor>)"
  unfolding randomizedInterval_def uint64_of_f32_def f32_mul_def f32_div_def
    f32_of_uint64_def f32_of_uint32_def f32_round_nat[OF assms(1)] f32_round_nat[OF assms(2)]
    f32_round_10
  by (rule refl)

lemma nat_floor_half: "nat \<lfloor>real n / 2\<rfloor> = n div 2"
proof -
  have "\<lfloor>real n / real 2\<rfloor> = int (n div 2)" by (rule floor_divide_of_nat_eq)
  then show ?thesis by simp
qed

lemma interval_value_bounds:
  assumes "b \<le> M" "3 * M < 2 ^ 24" "5 \<le> r" "r \<le> 15"
  shows "b div 2 \<le> nat \<lfloor>f32_round (real b * f32_round (real r / 10))\<rfloor>"
    and "2 * nat \<lfloor>f32_round (real b * f32_round (real r / 10))\<rfloor> \<le> 3 * M"
proof -
  let ?y = "f32_round (real b * f32_round (real r / 10))"
  have f: "1 / 2 \<le> f32_round (real r / 10)" "f32_round (real r / 10) \<le> 3 / 2"
    using factor_bounds[OF assms(3,4)] by auto
  have p: "real b / 2 \<le> ?y" "?y \<le> real (3 * M) / 2"
    using product_bounds[OF assms(1,2) f] by auto
  show "b div 2 \<le> nat \<lfloor>?y\<rfloor>"
  proof -
    have "2 * (b div 2) \<le> b" by simp
    then have "real (2 * (b div 2)) \<le> real b" using of_nat_le_iff by blast
    then have "real (b div 2) \<le> real b / 2" by simp
    then have "real (b div 2) \<le> ?y" using p(1) by linarith
    then have "int (b div 2) \<le> \<lfloor>?y\<rfloor>" by (simp add: le_floor_iff)
    then show ?thesis by linarith
  qed
  show "2 * nat \<lfloor>?y\<rfloor> \<le> 3 * M"
  proof -
    have "0 \<le> real b / 2" by simp
    then have "0 \<le> ?y" using p(1) by linarith
    then have "real (nat \<lfloor>?y\<rfloor>) \<le> ?y" by simp
    then have "2 * real (nat \<lfloor>?y\<rfloor>) \<le> real (3 * M)" using p(2) by linarith
    then have "real (2 * nat \<lfloor>?y\<rfloor>) \<le> real (3 * M)" by simp
    then show ?thesis using of_nat_le_iff by blast
  qed
qed

lemma interval_end_values:
  assumes "3 * b < 2 ^ 24"
  shows "nat \<lfloor>f32_round (real b * f32_round (real 5 / 10))\<rfloor> = b div 2"
    and "nat \<lfloor>f32_round (real b * f32_round (real 10 / 10))\<rfloor> = b"
    and "nat \<lfloor>f32_round (real b * f32_round (real 15 / 10))\<rfloor> = 3 * b div 2"
proof -
  have b: "b < 2 ^ 24" using assms by simp
  have h: "f32_round (1 / 2) = 1 / 2" using f32_round_exact[of 1 "- 1"] by (simp add: pow2_simps)
  have o: "f32_round 1 = 1" using f32_round_nat[of 1] by simp
  have t: "f32_round (3 / 2) = 3 / 2" using f32_round_exact[of 3 "- 1"] by (simp add: pow2_simps)
  have bh: "f32_round (real b / 2) = real b / 2"
    using f32_round_exact[OF b, of "- 1"] by (simp add: pow2_simps)
  have bt: "f32_round (real (3 * b) / 2) = real (3 * b) / 2"
    using f32_round_exact[OF assms, of "- 1"] by (simp add: pow2_simps)
  have q5: "real 5 / 10 = (1::real) / 2" and q10: "real 10 / 10 = (1::real)"
    and q15: "real 15 / 10 = (3::real) / 2" by simp_all
  have m5: "real b * (1 / 2) = real b / 2" and m10: "real b * 1 = real b"
    and m15: "real b * (3 / 2) = real (3 * b) / 2" by simp_all
  show "nat \<lfloor>f32_round (real b * f32_round (real 5 / 10))\<rfloor> = b div 2"
    by (simp only: q5 h m5 bh nat_floor_half)
  show "nat \<lfloor>f32_round (real b * f32_round (real 10 / 10))\<rfloor> = b"
    by (simp only: q10 o m10 f32_round_nat[OF b] floor_of_nat nat_int)
  show "nat \<lfloor>f32_round (real b * f32_round (real 15 / 10))\<rfloor> = 3 * b div 2"
    by (simp only: q15 t m15 bt nat_floor_half)
qed

text \<open>
  C5, as the code has it. On a fire of the RTCP timer the base interval is
  \<open>MaxVideoIntervalMs\<close>; if the consumers map is not empty and the 32-bit sum of the
  consumers' transmission rates, each converted to kbit/s, is not zero, the base is
  360000 divided by that sum, and not more than \<open>MaxVideoIntervalMs\<close>. The timer is
  started with exactly this value: the base multiplied in single precision by the
  single-precision quotient \<open>random / 10\<close>, for the random number \<open>random\<close> in 5..15, and
  truncated to an integer (which fits in 64 bits). With a \<open>MaxVideoIntervalMs\<close> below
  2^24 / 3, that value is at least half the base rounded down and at most 1.5 times
  \<open>MaxVideoIntervalMs\<close>; it is half the base rounded down for the random number 5, the
  base for 10, and 1.5 times the base rounded down for 15.
\<close>

theorem next_rtcp_interval:
  "3 * unat (MaxVideoIntervalMs ext) < 2 ^ 24 \<Longrightarrow> 5 \<le> unat random \<Longrightarrow> unat random \<le> 15 \<Longrightarrow>
   recalculatedInterval ext t now =
     (if mapConsumers t = [] \<or> transmissionRate ext t now = 0 then MaxVideoIntervalMs ext
      else min (ucast ((360000 :: uint32) div transmissionRate ext t now)) (MaxVideoIntervalMs ext))
   \<and> unat (transmissionRate ext t now) =
       sum_list (map (\<lambda>kv. unat (Consumer_GetTransmissionRate ext (snd kv) now) div 1000)
         (mapConsumers t)) mod 2 ^ 32
   \<and> OnTimer ext t True now random =
       SendRtcp ext t now
       @ [Timer_Start (word_of_nat (nat \<lfloor>f32_round
            (real (unat (recalculatedInterval ext t now))
             * f32_round (real (unat random) / 10))\<rfloor>))]
   \<and> unat (word_of_nat (nat \<lfloor>f32_round
            (real (unat (recalculatedInterval ext t now))
             * f32_round (real (unat random) / 10))\<rfloor>) :: uint64) =
       nat \<lfloor>f32_round (real (unat (recalculatedInterval ext t now))
             * f32_round (real (unat random) / 10))\<rfloor>
   \<and> unat (recalculatedInterval ext t now) div 2
       \<le> nat \<lfloor>f32_round (real (unat (recalculatedInterval ext t now))
             * f32_round (real (unat random) / 10))\<rfloor>
   \<and> 2 * nat \<lfloor>f32_round (real (unat (recalculatedInterval ext t now))
             * f32_round (real (unat random) / 10))\<rfloor>
       \<le> 3 * unat (MaxVideoIntervalMs ext)
   \<and> (unat random = 5 \<longrightarrow>
        nat \<lfloor>f32_round (real (unat (recalculatedInterval ext t now))
             * f32_round (real (unat random) / 10))\<rfloor>
          = unat (recalculatedInterval ext t now) div 2)
   \<and> (unat random = 10 \<longrightarrow>
        nat \<lfloor>f32_round (real (unat (recalculatedInterval ext t now))
             * f32_round (real (unat random) / 10))\<rfloor>
          = unat (recalculatedInterval ext t now))
   \<and> (unat random = 15 \<longrightarrow>
        nat \<lfloor>f32_round (real (unat (recalculatedInterval ext t now))
             * f32_round (real (unat random) / 10))\<rfloor>
          = 3 * unat (recalculatedInterval ext t now) div 2)"
proof -
  assume a: "3 * unat (MaxVideoIntervalMs ext) < 2 ^ 24" "5 \<le> unat random" "unat random \<le> 15"
  let ?base = "recalculatedInterval ext t now"
  let ?E = "nat \<lfloor>f32_round (real (unat ?base) * f32_round (real (unat random) / 10))\<rfloor>"
  have le: "unat ?base \<le> unat (MaxVideoIntervalMs ext)" by (rule recalculatedInterval_le)
  have b: "unat ?base < 2 ^ 24" "3 * unat ?base < 2 ^ 24" using le a(1) by simp_all
  have r: "unat random < 2 ^ 24" using a(3) by simp
  have v: "randomizedInterval ?base random = word_of_nat ?E"
    by (rule randomizedInterval_value[OF b(1) r])
  have c5: "unat ?base div 2 \<le> ?E" and c6: "2 * ?E \<le> 3 * unat (MaxVideoIntervalMs ext)"
    using interval_value_bounds[OF le a] by auto
  have "?E < 2 ^ 64" using c6 a(1) by simp
  then have u: "unat (word_of_nat ?E :: uint64) = ?E"
    by (simp add: unat_of_nat take_bit_nat_eq_self)
  have c1: "?base =
     (if mapConsumers t = [] \<or> transmissionRate ext t now = 0 then MaxVideoIntervalMs ext
      else min (ucast ((360000 :: uint32) div transmissionRate ext t now)) (MaxVideoIntervalMs ext))"
    by (rule recalculatedInterval_cases)
  have c2: "unat (transmissionRate ext t now) =
       sum_list (map (\<lambda>kv. unat (Consumer_GetTransmissionRate ext (snd kv) now) div 1000)
         (mapConsumers t)) mod 2 ^ 32"
    by (rule unat_transmissionRate)
  have c3: "OnTimer ext t True now random = SendRtcp ext t now @ [Timer_Start (word_of_nat ?E)]"
    using v by (simp add: OnTimer_def Let_def)
  have c7: "unat random = 5 \<longrightarrow> ?E = unat ?base div 2"
    using interval_end_values(1)[OF b(2)] by (auto simp only: of_nat_numeral)
  have c8: "unat random = 10 \<longrightarrow> ?E = unat ?base"
    using interval_end_values(2)[OF b(2)] by (auto simp only: of_nat_numeral)
  have c9: "unat random = 15 \<longrightarrow> ?E = 3 * unat ?base div 2"
    using interval_end_values(3)[OF b(2)] by (auto simp only: of_nat_numeral)
  show ?thesis using c1 c2 c3 u c5 c6 c7 c8 c9 by blast
qed

lemma externals_F_rate:
  "MaxVideoIntervalMs externals_F = 1000"
  "Consumer_GetTransmissionRate externals_F consumer now = 2117000"
  by (simp_all add: externals_F_def externals_E_def)

lemma recalculatedInterval_F: "recalculatedInterval externals_F transport_C 0 = 170"
  by (simp add: recalculatedInterval_def transmissionRate_def transport_C_eq externals_F_rate
      Let_def)

lemma bits_numeral_simps:
  "bits 0 = 0"
  "bits (Suc 0) = 1"
  "bits (numeral k) = Suc (bits (numeral k div 2))"
  by (subst bits.simps, simp)+

lemma started_interval_values:
  "nat \<lfloor>f32_round (real (unat (997 :: uint64)) * f32_round (real (unat (13 :: uint32)) / 10))\<rfloor>
     = 1296"
  "nat \<lfloor>f32_round (real (unat (170 :: uint64)) * f32_round (real (unat (13 :: uint32)) / 10))\<rfloor>
     = 220"
  "nat \<lfloor>f32_round (real (unat (170 :: uint64)) * f32_round (real (unat (5 :: uint32)) / 10))\<rfloor>
     = 85"
  "nat \<lfloor>f32_round (real (unat (170 :: uint64)) * f32_round (real (unat (15 :: uint32)) / 10))\<rfloor>
     = 255"
  by (simp_all add: f32_round_def f32_exponent_def bits_numeral_simps rne_def pow2_def Let_def)

lemma externals_hypotheses:
  "3 * unat (MaxVideoIntervalMs externals_E) < 2 ^ 24"
  "3 * unat (MaxVideoIntervalMs externals_F) < 2 ^ 24"
  "5 \<le> unat (13 :: uint32)" "unat (13 :: uint32) \<le> 15"
  "5 \<le> unat (5 :: uint32)" "unat (5 :: uint32) \<le> 15"
  "5 \<le> unat (15 :: uint32)" "unat (15 :: uint32) \<le> 15"
  by (simp_all add: externals_E_rate externals_F_rate)

theorem next_rtcp_interval_witness:
  "recalculatedInterval externals_E transport_C 0 = 997
   \<and> unat (transmissionRate externals_E transport_C 0) = 361
   \<and> OnTimer externals_E transport_C True 0 13 =
       SendRtcp externals_E transport_C 0 @ [Timer_Start 1296]
   \<and> recalculatedInterval externals_F transport_C 0 = 170
   \<and> OnTimer externals_F transport_C True 0 13 =
       SendRtcp externals_F transport_C 0 @ [Timer_Start 220]
   \<and> OnTimer externals_F transport_C True 0 5 =
       SendRtcp externals_F transport_C 0 @ [Timer_Start 85]
   \<and> OnTimer externals_F transport_C True 0 15 =
       SendRtcp externals_F transport_C 0 @ [Timer_Start 255]"
proof -
  have E: "OnTimer externals_E transport_C True 0 13 =
       SendRtcp externals_E transport_C 0 @ [Timer_Start 1296]"
    using next_rtcp_interval [of externals_E 13 transport_C 0,
        OF externals_hypotheses(1,3,4), THEN conjunct2, THEN conjunct2, THEN conjunct1]
    unfolding recalculatedInterval_C started_interval_values by simp
  have F: "OnTimer externals_F transport_C True 0 13 =
       SendRtcp externals_F transport_C 0 @ [Timer_Start 220]"
    using next_rtcp_interval [of externals_F 13 transport_C 0,
        OF externals_hypotheses(2,3,4), THEN conjunct2, THEN conjunct2, THEN conjunct1]
    unfolding recalculatedInterval_F started_interval_values by simp
  have F5: "OnTimer externals_F transport_C True 0 5 =
       SendRtcp externals_F transport_C 0 @ [Timer_Start 85]"
    using next_rtcp_interval [of externals_F 5 transport_C 0,
        OF externals_hypotheses(2,5,6), THEN conjunct2, THEN conjunct2, THEN conjunct1]
    unfolding recalculatedInterval_F started_interval_values by simp
  have F15: "OnTimer externals_F transport_C True 0 15 =
       SendRtcp externals_F transport_C 0 @ [Timer_Start 255]"
    using next_rtcp_interval [of externals_F 15 transport_C 0,
        OF externals_hypotheses(2,7,8), THEN conjunct2, THEN conjunct2, THEN conjunct1]
    unfolding recalculatedInterval_F started_interval_values by simp
  show ?thesis
    using E F F5 F15 by (simp add: recalculatedInterval_C recalculatedInterval_F transmissionRate_C)
qed

text \<open>
  C5, as stated, fails where the product is not an integer: with one consumer sending
  361000 bit/s the base is 997 ms, and for the random number 5 the timer is started with
  498 ms, which is less than half of 997.
\<close>

theorem next_rtcp_interval_counterexample:
  "recalculatedInterval externals_E transport_C 0 = 997
   \<and> OnTimer externals_E transport_C True 0 5 =
       SendRtcp externals_E transport_C 0 @ [Timer_Start 498]
   \<and> \<not> (1 / 2 * real (unat (997 :: uint64)) \<le> real (unat (498 :: uint64)))"
  by (simp add: OnTimer_def Let_def recalculatedInterval_C randomizedInterval_997_5)

end
